theory Spec2Isabelle
  imports Complex_Main "HOL-Library.Word"
begin

section \<open>Level 2 product view: sweep geometry and colour lookup table\<close>

text \<open>
  A shallow embedding of \<^verbatim>\<open>scwx/qt/view/level2_product_view.cpp\<close>.

  Conventions of the embedding.
  \<^item> \<^verbatim>\<open>uint8_t\<close>, \<^verbatim>\<open>uint16_t\<close>, \<^verbatim>\<open>uint32_t\<close> are words; an expression that C++
    evaluates after integral promotion is written on \<open>int\<close> or \<open>nat\<close> and converted
    back where the source stores it in a narrower variable.
  \<^item> \<^verbatim>\<open>size_t\<close> is \<open>nat\<close> (64 bits are never exhausted by the sizes that occur).
  \<^item> \<^verbatim>\<open>float\<close> is a type parameter \<open>'f\<close>, and the binary32 operations the source
    applies to floats are the fields of a record \<open>'f float_ops\<close> handed to every function
    that computes with floats. Nothing is assumed about them, so every property below
    holds for the arithmetic of the platform, with its rounding, infinities and NaN.
  \<^item> A \<^verbatim>\<open>std::shared_ptr\<close> is an optional pair of an address and the object it
    points to; \<^verbatim>\<open>==\<close> on shared pointers compares the addresses only.
  \<^item> Reading through a null pointer, indexing a vector or an array outside its
    extent, and storing outside a buffer are undefined in C++; the model returns an
    \<open>error\<close> for each of them.
\<close>

type_synonym u8 = "8 word"
type_synonym u16 = "16 word"
type_synonym u32 = "32 word"

type_synonym 'a shared_ptr = "(nat \<times> 'a) option"

definition ptr_eq :: "'a shared_ptr \<Rightarrow> 'a shared_ptr \<Rightarrow> bool" where
  "ptr_eq p q = (map_option fst p = map_option fst q)"

datatype error = NullPointer | SampleOutOfRange | CoordinateOutOfRange | BufferOverflow

subsection \<open>Floating point\<close>

text \<open>
  The operations on \<^verbatim>\<open>float\<close> that the source uses: the conversion of an integer
  (\<open>f_of_int\<close>, also for the literals \<^verbatim>\<open>2.0f\<close> and \<^verbatim>\<open>10\<close>), the four arithmetic
  operations, \<^verbatim>\<open>==\<close> and \<^verbatim>\<open>std::lroundf\<close> with its \<^verbatim>\<open>long\<close> result.
\<close>

record 'f float_ops =
  f_of_int :: "int \<Rightarrow> 'f"
  f_add :: "'f \<Rightarrow> 'f \<Rightarrow> 'f"
  f_sub :: "'f \<Rightarrow> 'f \<Rightarrow> 'f"
  f_mul :: "'f \<Rightarrow> 'f \<Rightarrow> 'f"
  f_div :: "'f \<Rightarrow> 'f \<Rightarrow> 'f"
  f_eq :: "'f \<Rightarrow> 'f \<Rightarrow> bool"
  f_lroundf :: "'f \<Rightarrow> int"

subsection \<open>Products and data blocks\<close>

datatype Level2Product =
    Reflectivity
  | Velocity
  | SpectrumWidth
  | DifferentialReflectivity
  | DifferentialPhase
  | CorrelationCoefficient
  | ClutterFilterPowerRemoved
  | UnknownProduct

datatype DataBlockType =
    MomentRef
  | MomentVel
  | MomentSw
  | MomentZdr
  | MomentPhi
  | MomentRho
  | MomentCfp
  | Unknown

text \<open>
  \<open>UnknownProduct\<close> stands for every enumerator of \<^verbatim>\<open>common::Level2Product\<close> that is
  no key of \<^verbatim>\<open>blockTypes\<close> (the constructor has a branch for them).
\<close>

definition blockTypes :: "Level2Product \<rightharpoonup> DataBlockType" where
  "blockTypes = map_of
     [(Reflectivity, MomentRef),
      (Velocity, MomentVel),
      (SpectrumWidth, MomentSw),
      (DifferentialReflectivity, MomentZdr),
      (DifferentialPhase, MomentPhi),
      (CorrelationCoefficient, MomentRho),
      (ClutterFilterPowerRemoved, MomentCfp)]"

definition VERTICES_PER_BIN :: nat where
  "VERTICES_PER_BIN = 6"

definition VALUES_PER_VERTEX :: nat where
  "VALUES_PER_VERTEX = 2"

text \<open>
  Modelled from the spec: the declarations of the radar records
  (\<^verbatim>\<open>wsr88d::rda::MomentDataBlock\<close>, \<^verbatim>\<open>VolumeDataBlock\<close>, \<^verbatim>\<open>DigitalRadarData\<close>) are
  not among the sources. The fields are the accessors the view calls, with the types
  the spec's data model gives them (\<open>snrThresholdRaw: int\<close>, \<open>gateCount: uint32\<close>,
  \<open>azimuthResolutionSpacing: int8\<close>, 16-bit range and interval). \<open>data_moments\<close> is the
  sample array behind the untyped pointer \<^verbatim>\<open>data_moments()\<close>, one element per gate;
  the view reads an element as \<^verbatim>\<open>uint8_t\<close> when the word size is 8 and as
  \<^verbatim>\<open>uint16_t\<close> otherwise.
\<close>

record 'f MomentDataBlock =
  data_word_size :: u8
  scale :: 'f
  offset :: 'f
  snr_threshold_raw :: int
  data_moment_range_raw :: u16
  data_moment_range_sample_interval_raw :: u16
  number_of_data_moment_gates :: u32
  data_moments :: "u16 list"

record 'f VolumeDataBlock =
  latitude :: 'f
  longitude :: 'f

record 'f DigitalRadarData =
  moment_data_block :: "DataBlockType \<Rightarrow> 'f MomentDataBlock option"
  volume_data_block :: "'f VolumeDataBlock option"
  azimuth_angle :: 'f
  azimuth_resolution_spacing :: u8
  modified_julian_date :: u16
  collection_time :: u32

datatype RadialSize = Deg_0_5 | Deg_1

text \<open>
  Modelled from the spec: \<^verbatim>\<open>manager::RadarProductManager\<close> is an external collaborator;
  \<open>GetLevel2Data\<close> is the ordered radial sequence it hands out and \<open>coordinates\<close> the
  precomputed table for an angular resolution, as they are when the view asks.
\<close>

record 'f RadarProductManager =
  GetLevel2Data :: "DataBlockType \<Rightarrow> nat \<Rightarrow> 'f DigitalRadarData list"
  coordinates :: "RadialSize \<Rightarrow> 'f list"

text \<open>
  Modelled from the spec: \<^verbatim>\<open>scwx/common/constants.hpp\<close> is not among the sources; its
  two constants are parameters of the model.
\<close>

record constants =
  MAX_RADIALS :: nat
  MAX_DATA_MOMENT_GATES :: nat

subsection \<open>Colour tables\<close>

type_synonym rgba8_pixel_t = "u8 \<times> u8 \<times> u8 \<times> u8"

text \<open>
  Modelled from the spec: \<^verbatim>\<open>common::ColorTable\<close> is an external collaborator with
  \<open>IsValid\<close> and \<open>Color\<close>.
\<close>

record 'f ColorTable =
  IsValid :: bool
  Color :: "'f \<Rightarrow> rgba8_pixel_t"

subsection \<open>The view's state\<close>

datatype signal = SweepComputed | ColorTableUpdated

datatype warning = UnknownProductWarning | NoMomentData | DifferentWordSize u16

record 'f Level2ProductViewImpl =
  p_product :: Level2Product
  p_dataBlockType :: DataBlockType
  p_momentDataBlock0 :: "'f MomentDataBlock option"
  p_vertices :: "'f list"
  p_dataMoments8 :: "u8 list"
  p_dataMoments16 :: "u16 list"
  p_latitude :: 'f
  p_longitude :: 'f
  p_sweepTime :: int
  p_colorTable :: "'f ColorTable shared_ptr"
  p_colorTableLut :: "rgba8_pixel_t list"
  p_savedColorTable :: "'f ColorTable shared_ptr"
  p_savedScale :: 'f
  p_savedOffset :: 'f
  signals :: "signal list"
  warnings :: "warning list"

text \<open>
  The members \<^verbatim>\<open>p->product_\<close>, \<^verbatim>\<open>p->vertices_\<close>, ... are the fields \<open>p_product\<close>,
  \<open>p_vertices\<close>, ... (an identifier cannot end in an underscore here).
  \<open>signals\<close> and \<open>warnings\<close> record, oldest first, the Qt signals emitted and the
  warnings logged. The constructor leaves \<^verbatim>\<open>savedScale_\<close> and \<^verbatim>\<open>savedOffset_\<close>
  uninitialised; they are arguments here.
\<close>

definition Level2ProductViewImpl_new :: "'f float_ops \<Rightarrow> Level2Product \<Rightarrow> 'f \<Rightarrow> 'f \<Rightarrow> 'f Level2ProductViewImpl" where
  "Level2ProductViewImpl_new fp product s0 o0 =
     \<lparr>p_product = product,
      p_dataBlockType = (case blockTypes product of Some t \<Rightarrow> t | None \<Rightarrow> Unknown),
      p_momentDataBlock0 = None,
      p_vertices = [],
      p_dataMoments8 = [],
      p_dataMoments16 = [],
      p_latitude = f_of_int fp 0,
      p_longitude = f_of_int fp 0,
      p_sweepTime = 0,
      p_colorTable = None,
      p_colorTableLut = [],
      p_savedColorTable = None,
      p_savedScale = s0,
      p_savedOffset = o0,
      signals = [],
      warnings = (case blockTypes product of Some t \<Rightarrow> [] | None \<Rightarrow> [UnknownProductWarning])\<rparr>"

subsection \<open>Vectors\<close>

text \<open>\<^verbatim>\<open>std::vector::resize\<close>: keep the first \<open>n\<close> elements, pad with value-initialised ones.\<close>

definition resize :: "nat \<Rightarrow> 'a \<Rightarrow> 'a list \<Rightarrow> 'a list" where
  "resize n d xs = take n xs @ replicate (n - length xs) d"

definition rgba8_default :: rgba8_pixel_t where
  "rgba8_default = (0, 0, 0, 0)"

subsection \<open>UpdateColorTable\<close>

definition product_range :: "Level2Product \<Rightarrow> u16 \<times> u16" where
  "product_range p =
     (case p of
        DifferentialReflectivity \<Rightarrow> (2, 1058)
      | DifferentialPhase \<Rightarrow> (2, 1023)
      | ClutterFilterPowerRemoved \<Rightarrow> (8, 81)
      | _ \<Rightarrow> (2, 255))"

text \<open>\<^verbatim>\<open>boost::irange<uint16_t>(first, last)\<close> is the half-open range \<open>[first, last)\<close>.\<close>

definition irange :: "u16 \<Rightarrow> u16 \<Rightarrow> u16 list" where
  "irange first_v last_v = map of_nat [unat first_v ..< unat last_v]"

definition lut_store :: "'f float_ops \<Rightarrow> 'f ColorTable \<Rightarrow> 'f \<Rightarrow> 'f \<Rightarrow> u16 \<Rightarrow> u16 \<Rightarrow> rgba8_pixel_t list \<Rightarrow> rgba8_pixel_t list" where
  "lut_store fp ct off sc first i lut =
     (let f = f_div fp (f_sub fp (f_of_int fp (uint i)) off) sc
      in lut[unat i - unat first := Color ct f])"

definition UpdateColorTable :: "'f float_ops \<Rightarrow> 'f Level2ProductViewImpl \<Rightarrow> 'f Level2ProductViewImpl" where
  "UpdateColorTable fp p =
     (case (p_momentDataBlock0 p, p_colorTable p) of
        (Some md0, Some (a, ct)) \<Rightarrow>
          if \<not> IsValid ct then p
          else
            let off = offset md0; sc = scale md0 in
            if ptr_eq (p_savedColorTable p) (p_colorTable p)
               \<and> f_eq fp (p_savedOffset p) off \<and> f_eq fp (p_savedScale p) sc
            then p
            else
              let (rangeMin, rangeMax) = product_range (p_product p);
                  dataRange = irange rangeMin rangeMax;
                  lut = resize (unat rangeMax - unat rangeMin + 1) rgba8_default (p_colorTableLut p);
                  lut = fold (lut_store fp ct off sc rangeMin) dataRange lut
              in p\<lparr>p_colorTableLut := lut,
                    p_savedColorTable := p_colorTable p,
                    p_savedOffset := off,
                    p_savedScale := sc,
                    signals := signals p @ [ColorTableUpdated]\<rparr>
      | _ \<Rightarrow> p)"

definition LoadColorTable :: "'f float_ops \<Rightarrow> 'f ColorTable shared_ptr \<Rightarrow> 'f Level2ProductViewImpl \<Rightarrow> 'f Level2ProductViewImpl" where
  "LoadColorTable fp colorTable p = UpdateColorTable fp (p\<lparr>p_colorTable := colorTable\<rparr>)"

subsection \<open>Arithmetic helpers\<close>

text \<open>Division of C++ on \<^verbatim>\<open>int\<close>: the quotient is truncated towards zero.\<close>

definition c_div :: "int \<Rightarrow> int \<Rightarrow> int" where
  "c_div a b = sgn a * sgn b * (\<bar>a\<bar> div \<bar>b\<bar>)"

text \<open>\<^verbatim>\<open>std::clamp<int8_t>(v, 1, 2)\<close>: the argument is read as a signed byte.\<close>

definition clamp_int8 :: "u8 \<Rightarrow> int \<Rightarrow> int \<Rightarrow> int" where
  "clamp_int8 v lo hi = (if sint v < lo then lo else if hi < sint v then hi else sint v)"

text \<open>
  \<^verbatim>\<open>TimePoint\<close>: the epoch is 1969-12-31; the result is counted in milliseconds from
  1970-01-01.
\<close>

definition TimePoint :: "u16 \<Rightarrow> u32 \<Rightarrow> int" where
  "TimePoint modifiedJulianDate milliseconds =
     - 86400000 + uint modifiedJulianDate * (24 * 3600000) + uint milliseconds"

subsection \<open>ComputeSweep: the buffers and the per-radial values\<close>

text \<open>
  The values \<^verbatim>\<open>ComputeSweep\<close> fixes before its loops: the radial sequence, the
  coordinate table, the block type, the first radial's moment block, the origin, the
  threshold and the first radial slot.
\<close>

record 'f sweep_env =
  e_radarData :: "'f DigitalRadarData list"
  e_coordinates :: "'f list"
  e_dataBlockType :: DataBlockType
  e_momentData0 :: "'f MomentDataBlock"
  e_latitude :: 'f
  e_longitude :: 'f
  e_snrThreshold :: u16
  e_startRadial :: u16

definition radials :: "'f sweep_env \<Rightarrow> nat" where
  "radials e = length (e_radarData e)"

definition gates :: "'f sweep_env \<Rightarrow> u32" where
  "gates e = number_of_data_moment_gates (e_momentData0 e)"

text \<open>
  The buffers under construction with their write positions, and the warnings logged
  by the loop.
\<close>

record 'f sweep_buffers =
  vertices :: "'f list"
  vIndex :: nat
  dataMoments8 :: "u8 list"
  dataMoments16 :: "u16 list"
  mIndex :: nat
  logged :: "warning list"

text \<open>
  \<open>store buf k xs\<close> is the run of statements \<^verbatim>\<open>buf[k++] = x\<close> for the elements \<open>x\<close>
  of \<open>xs\<close> in order.
\<close>

definition store :: "'a list \<Rightarrow> nat \<Rightarrow> 'a list \<Rightarrow> error + 'a list" where
  "store buf k xs =
     (if k + length xs \<le> length buf
      then Inr (take k buf @ xs @ drop (k + length xs) buf)
      else Inl BufferOverflow)"

fun read_all :: "'a list \<Rightarrow> nat list \<Rightarrow> error + 'a list" where
  "read_all tbl [] = Inr []"
| "read_all tbl (k # ks) =
     (if k < length tbl
      then (case read_all tbl ks of Inl err \<Rightarrow> Inl err | Inr vs \<Rightarrow> Inr (tbl ! k # vs))
      else Inl CoordinateOutOfRange)"

definition sample_at :: "'f MomentDataBlock \<Rightarrow> u16 \<Rightarrow> error + u16" where
  "sample_at momentData i =
     (if unat i < length (data_moments momentData)
      then Inr (data_moments momentData ! unat i)
      else Inl SampleOutOfRange)"

definition gateSize_of :: "'f MomentDataBlock \<Rightarrow> u16" where
  "gateSize_of momentData =
     (let dataMomentInterval = data_moment_range_sample_interval_raw momentData
      in max 1 (of_int (c_div (uint dataMomentInterval) 250)))"

definition startGate_of :: "'f MomentDataBlock \<Rightarrow> u16" where
  "startGate_of momentData =
     (let dataMomentRange = data_moment_range_raw momentData;
          dataMomentInterval = data_moment_range_sample_interval_raw momentData;
          dataMomentIntervalH = (of_int (c_div (uint dataMomentInterval) 2) :: u16)
      in of_int (c_div (uint dataMomentRange - uint dataMomentIntervalH) 250))"

definition endGate_of :: "constants \<Rightarrow> 'f sweep_env \<Rightarrow> 'f MomentDataBlock \<Rightarrow> u16" where
  "endGate_of c e momentData =
     (let gateSize = gateSize_of momentData;
          startGate = startGate_of momentData;
          numberOfDataMomentGates =
            (min (ucast (number_of_data_moment_gates momentData)) (ucast (gates e)) :: u16)
      in min (of_nat (unat startGate + unat numberOfDataMomentGates * unat gateSize))
             (of_nat (MAX_DATA_MOMENT_GATES c)))"

subsection \<open>ComputeSweep: one bin\<close>

text \<open>
  The indices at which the coordinate table is read for one bin: \<^verbatim>\<open>offset1\<close> to
  \<^verbatim>\<open>offset4\<close> of the quad branch (\<open>gate > 0\<close>, two triangles) and \<^verbatim>\<open>offset1\<close>,
  \<^verbatim>\<open>offset2\<close> of the branch for the bin at the origin, each followed by its successor,
  in the order of the assignments to \<^verbatim>\<open>vertices\<close>.
\<close>

definition quad_offsets :: "constants \<Rightarrow> 'f sweep_env \<Rightarrow> u16 \<Rightarrow> u16 \<Rightarrow> u16 \<Rightarrow> nat list" where
  "quad_offsets c e radial gateSize gate =
     (let baseCoord = gate - 1;
          offset1 = ((unat (e_startRadial e) + unat radial) mod MAX_RADIALS c *
                       MAX_DATA_MOMENT_GATES c + unat baseCoord) * 2;
          offset2 = offset1 + unat gateSize * 2;
          offset3 = (((unat (e_startRadial e) + unat radial + 1) mod MAX_RADIALS c) *
                       MAX_DATA_MOMENT_GATES c + unat baseCoord) * 2;
          offset4 = offset3 + unat gateSize * 2
      in [offset1, offset1 + 1,
          offset2, offset2 + 1,
          offset3, offset3 + 1,
          offset3, offset3 + 1,
          offset4, offset4 + 1,
          offset2, offset2 + 1])"

definition origin_offsets :: "constants \<Rightarrow> 'f sweep_env \<Rightarrow> u16 \<Rightarrow> u16 \<Rightarrow> nat list" where
  "origin_offsets c e radial gate =
     (let baseCoord = gate;
          offset1 = ((unat (e_startRadial e) + unat radial) mod MAX_RADIALS c *
                       MAX_DATA_MOMENT_GATES c + unat baseCoord) * 2;
          offset2 = (((unat (e_startRadial e) + unat radial + 1) mod MAX_RADIALS c) *
                       MAX_DATA_MOMENT_GATES c + unat baseCoord) * 2
      in [offset1, offset1 + 1,
          offset2, offset2 + 1])"

definition bin_vertices :: "constants \<Rightarrow> 'f sweep_env \<Rightarrow> u16 \<Rightarrow> u16 \<Rightarrow> u16 \<Rightarrow> error + 'f list" where
  "bin_vertices c e radial gateSize gate =
     (if gate > 0 then
        read_all (e_coordinates e) (quad_offsets c e radial gateSize gate)
      else
        (case read_all (e_coordinates e) (origin_offsets c e radial gate) of
           Inl err \<Rightarrow> Inl err
         | Inr vs \<Rightarrow> Inr (e_latitude e # e_longitude e # vs)))"

definition store_vertices :: "constants \<Rightarrow> 'f sweep_env \<Rightarrow> u16 \<Rightarrow> u16 \<Rightarrow> u16 \<Rightarrow> 'f sweep_buffers \<Rightarrow> error + 'f sweep_buffers" where
  "store_vertices c e radial gateSize gate b =
     (case bin_vertices c e radial gateSize gate of
        Inl err \<Rightarrow> Inl err
      | Inr vs \<Rightarrow>
          (case store (vertices b) (vIndex b) vs of
             Inl err \<Rightarrow> Inl err
           | Inr buf \<Rightarrow> Inr (b\<lparr>vertices := buf, vIndex := vIndex b + length vs\<rparr>)))"

text \<open>The body of the gate loop; a bin below the threshold leaves the buffers as they are.\<close>

definition gate_body :: "constants \<Rightarrow> 'f sweep_env \<Rightarrow> u16 \<Rightarrow> 'f MomentDataBlock \<Rightarrow> 'f sweep_buffers \<Rightarrow> u16 \<Rightarrow> u16 \<Rightarrow> error + 'f sweep_buffers" where
  "gate_body c e radial momentData b gate i =
     (let gateSize = gateSize_of momentData;
          vertexCount = (if gate > 0 then 6 else 3 :: nat)
      in case sample_at momentData i of
           Inl err \<Rightarrow> Inl err
         | Inr s \<Rightarrow>
             if data_word_size momentData = 8 then
               let dataValue = (ucast s :: u8) in
               if unat dataValue < unat (e_snrThreshold e) then Inr b
               else
                 (case store (dataMoments8 b) (mIndex b) (replicate vertexCount dataValue) of
                    Inl err \<Rightarrow> Inl err
                  | Inr buf \<Rightarrow>
                      store_vertices c e radial gateSize gate
                        (b\<lparr>dataMoments8 := buf, mIndex := mIndex b + vertexCount\<rparr>))
             else
               let dataValue = s in
               if unat dataValue < unat (e_snrThreshold e) then Inr b
               else
                 (case store (dataMoments16 b) (mIndex b) (replicate vertexCount dataValue) of
                    Inl err \<Rightarrow> Inl err
                  | Inr buf \<Rightarrow>
                      store_vertices c e radial gateSize gate
                        (b\<lparr>dataMoments16 := buf, mIndex := mIndex b + vertexCount\<rparr>)))"

subsection \<open>ComputeSweep: the loops\<close>

function gate_loop :: "constants \<Rightarrow> 'f sweep_env \<Rightarrow> u16 \<Rightarrow> 'f MomentDataBlock \<Rightarrow> 'f sweep_buffers \<Rightarrow> u16 \<Rightarrow> u16 \<Rightarrow> error + 'f sweep_buffers" where
  "gate_loop c e radial momentData b gate i =
     (if unat gate + unat (gateSize_of momentData) \<le> unat (endGate_of c e momentData)
      then (case gate_body c e radial momentData b gate i of
              Inl err \<Rightarrow> Inl err
            | Inr b' \<Rightarrow> gate_loop c e radial momentData b' (gate + gateSize_of momentData) (i + 1))
      else Inr b)"
  by pat_completeness auto

termination gate_loop
proof (relation "measure (\<lambda>(c, e, radial, momentData, b, gate, i).
                   unat (endGate_of c e momentData) - unat gate)", goal_cases)
  case 1
  show ?case by simp
next
  case (2 c e radial momentData b gate i b')
  have "(1::u16) \<le> gateSize_of momentData"
    by (simp add: gateSize_of_def Let_def)
  then have pos: "1 \<le> unat (gateSize_of momentData)"
    by (simp add: word_le_nat_alt)
  have "unat (endGate_of c e momentData) < 2 ^ LENGTH(16)"
    by (rule unsigned_less)
  with 2(1) have "unat gate + unat (gateSize_of momentData) < 2 ^ LENGTH(16)"
    by linarith
  then have "unat (gate + gateSize_of momentData) = unat gate + unat (gateSize_of momentData)"
    by (simp only: unat_add_lem)
  with 2(1) pos show ?case by simp
qed

declare gate_loop.simps [simp del]

text \<open>
  The body of the radial loop: the moment block of the radial is read without a null
  check; a radial of another word size is logged and skipped.
\<close>

definition radial_body :: "constants \<Rightarrow> 'f sweep_env \<Rightarrow> 'f sweep_buffers \<Rightarrow> u16 \<Rightarrow> error + 'f sweep_buffers" where
  "radial_body c e b radial =
     (let radialData = e_radarData e ! unat radial
      in case moment_data_block radialData (e_dataBlockType e) of
           None \<Rightarrow> Inl NullPointer
         | Some momentData \<Rightarrow>
             if data_word_size (e_momentData0 e) \<noteq> data_word_size momentData
             then Inr (b\<lparr>logged := logged b @ [DifferentWordSize radial]\<rparr>)
             else gate_loop c e radial momentData b (startGate_of momentData) 0)"

text \<open>
  The counter of the radial loop is a \<^verbatim>\<open>uint16_t\<close> compared with a \<^verbatim>\<open>size_t\<close>: with
  more than 65535 radials it wraps and the loop does not end by itself, so the loop is
  a partial function (\<open>None\<close>: no result).
\<close>

partial_function (option) radial_loop :: "constants \<Rightarrow> 'f sweep_env \<Rightarrow> 'f sweep_buffers \<Rightarrow> u16 \<Rightarrow> (error + 'f sweep_buffers) option" where
  "radial_loop c e b radial =
     (if unat radial < radials e
      then (case radial_body c e b radial of
              Inl err \<Rightarrow> Some (Inl err)
            | Inr b' \<Rightarrow> radial_loop c e b' (radial + 1))
      else Some (Inr b))"

declare radial_loop.simps [code]

subsection \<open>ComputeSweep\<close>

definition ComputeSweep :: "'f float_ops \<Rightarrow> constants \<Rightarrow> 'f RadarProductManager \<Rightarrow> 'f Level2ProductViewImpl \<Rightarrow> (error + 'f Level2ProductViewImpl) option" where
  "ComputeSweep fp c mgr p =
     (if p_dataBlockType p = Unknown then Some (Inr p)
      else
        let radarData = GetLevel2Data mgr (p_dataBlockType p) 0 in
        if length radarData = 0 then Some (Inr p)
        else
          let radialSize = (if length radarData = 720 then Deg_0_5 else Deg_1);
              coords = coordinates mgr radialSize;
              momentData0 = moment_data_block (radarData ! 0) (p_dataBlockType p);
              p = p\<lparr>p_momentDataBlock0 := momentData0\<rparr>
          in case momentData0 of
               None \<Rightarrow> Some (Inr (p\<lparr>warnings := warnings p @ [NoMomentData]\<rparr>))
             | Some md0 \<Rightarrow>
                 (case volume_data_block (radarData ! 0) of
                    None \<Rightarrow> Some (Inl NullPointer)
                  | Some volumeData0 \<Rightarrow>
                      let p = p\<lparr>p_latitude := latitude volumeData0,
                                 p_longitude := longitude volumeData0,
                                 p_sweepTime := TimePoint (modified_julian_date (radarData ! 0))
                                                  (collection_time (radarData ! 0))\<rparr>;
                          n = length radarData;
                          g = number_of_data_moment_gates md0;
                          b = \<lparr>vertices = replicate (n * unat g * VERTICES_PER_BIN * VALUES_PER_VERTEX)
                                            (f_of_int fp 0),
                               vIndex = 0,
                               dataMoments8 =
                                 (if data_word_size md0 = 8
                                  then resize (n * unat g * VERTICES_PER_BIN) 0 (p_dataMoments8 p)
                                  else []),
                               dataMoments16 =
                                 (if data_word_size md0 = 8
                                  then []
                                  else resize (n * unat g * VERTICES_PER_BIN) 0 (p_dataMoments16 p)),
                               mIndex = 0,
                               logged = []\<rparr>;
                          sc = scale md0;
                          off = offset md0;
                          snrThreshold =
                            (of_int (f_lroundf fp
                               (f_add fp
                                  (f_div fp (f_mul fp (f_of_int fp (snr_threshold_raw md0)) sc)
                                     (f_of_int fp 10))
                                  off)) :: u16);
                          radialMultiplier =
                            f_div fp (f_of_int fp 2)
                              (f_of_int fp (clamp_int8 (azimuth_resolution_spacing (radarData ! 0)) 1 2));
                          startAngle = azimuth_angle (radarData ! 0);
                          startRadial = (of_int (f_lroundf fp (f_mul fp startAngle radialMultiplier)) :: u16);
                          e = \<lparr>e_radarData = radarData,
                               e_coordinates = coords,
                               e_dataBlockType = p_dataBlockType p,
                               e_momentData0 = md0,
                               e_latitude = p_latitude p,
                               e_longitude = p_longitude p,
                               e_snrThreshold = snrThreshold,
                               e_startRadial = startRadial\<rparr>
                      in (case radial_loop c e b 0 of
                            None \<Rightarrow> None
                          | Some (Inl err) \<Rightarrow> Some (Inl err)
                          | Some (Inr b') \<Rightarrow>
                              let p = p\<lparr>p_vertices := resize (vIndex b') (f_of_int fp 0) (vertices b'),
                                         p_dataMoments8 :=
                                           (if data_word_size md0 = 8
                                            then resize (mIndex b') 0 (dataMoments8 b')
                                            else dataMoments8 b'),
                                         p_dataMoments16 :=
                                           (if data_word_size md0 = 8
                                            then dataMoments16 b'
                                            else resize (mIndex b') 0 (dataMoments16 b')),
                                         warnings := warnings p @ logged b',
                                         signals := signals p @ [SweepComputed]\<rparr>
                              in Some (Inr (UpdateColorTable fp p)))))"

subsection \<open>The cache key of the colour lookup table\<close>

text \<open>
  The condition of the second early return of \<^verbatim>\<open>UpdateColorTable\<close>: the saved colour
  table pointer, offset and scale are the current ones.
\<close>

definition cache_hit :: "'f float_ops \<Rightarrow> 'f Level2ProductViewImpl \<Rightarrow> 'f MomentDataBlock \<Rightarrow> bool" where
  "cache_hit fp p md0 \<longleftrightarrow>
     ptr_eq (p_savedColorTable p) (p_colorTable p)
     \<and> f_eq fp (p_savedOffset p) (offset md0) \<and> f_eq fp (p_savedScale p) (scale md0)"

subsection \<open>What the loops emit\<close>

text \<open>
  The loops of \<^verbatim>\<open>ComputeSweep\<close> only ever append to the buffers. The functions of this
  subsection describe what is appended, bin by bin and radial by radial, without the
  buffers: an emission is the list of vertex coordinates, the list of raw values (one
  per vertex; an 8-bit value is given in 16 bits) and the warnings. They are related to
  the loops in the properties below.
\<close>

type_synonym 'f emission = "'f list \<times> u16 list \<times> warning list"

fun collect :: "(error + 'f emission) list \<Rightarrow> error + 'f emission" where
  "collect [] = Inr ([], [], [])"
| "collect (Inl err # rest) = Inl err"
| "collect (Inr (vs, ms, ws) # rest) =
     (case collect rest of
        Inl err \<Rightarrow> Inl err
      | Inr (vs', ms', ws') \<Rightarrow> Inr (vs @ vs', ms @ ms', ws @ ws'))"

definition bin_sample :: "'f MomentDataBlock \<Rightarrow> u16 \<Rightarrow> u16" where
  "bin_sample momentData s =
     (if data_word_size momentData = 8 then ucast (ucast s :: u8) else s)"

definition bin_emit :: "constants \<Rightarrow> 'f sweep_env \<Rightarrow> u16 \<Rightarrow> 'f MomentDataBlock \<Rightarrow> u16 \<times> u16 \<Rightarrow> error + 'f emission" where
  "bin_emit c e radial momentData gi =
     (case gi of (gate, i) \<Rightarrow>
        (case sample_at momentData i of
           Inl err \<Rightarrow> Inl err
         | Inr s \<Rightarrow>
             if unat (bin_sample momentData s) < unat (e_snrThreshold e) then Inr ([], [], [])
             else
               (case bin_vertices c e radial (gateSize_of momentData) gate of
                  Inl err \<Rightarrow> Inl err
                | Inr vs \<Rightarrow>
                    Inr (vs, replicate (if gate > 0 then 6 else 3) (bin_sample momentData s), []))))"

text \<open>The pairs \<open>(gate, i)\<close> the gate loop visits, in order.\<close>

function gate_bins :: "constants \<Rightarrow> 'f sweep_env \<Rightarrow> 'f MomentDataBlock \<Rightarrow> u16 \<Rightarrow> u16 \<Rightarrow> (u16 \<times> u16) list" where
  "gate_bins c e momentData gate i =
     (if unat gate + unat (gateSize_of momentData) \<le> unat (endGate_of c e momentData)
      then (gate, i) # gate_bins c e momentData (gate + gateSize_of momentData) (i + 1)
      else [])"
  by pat_completeness auto
termination
proof (relation "measure (\<lambda>(c, e, momentData, gate, i).
                   unat (endGate_of c e momentData) - unat gate)", goal_cases)
  case 1
  show ?case by simp
next
  case (2 c e momentData gate i)
  have "(1::u16) \<le> gateSize_of momentData"
    by (simp add: gateSize_of_def Let_def)
  then have pos: "1 \<le> unat (gateSize_of momentData)"
    by (simp add: word_le_nat_alt)
  have "unat (endGate_of c e momentData) < 2 ^ LENGTH(16)"
    by (rule unsigned_less)
  with 2 have "unat gate + unat (gateSize_of momentData) < 2 ^ LENGTH(16)"
    by linarith
  then have "unat (gate + gateSize_of momentData) = unat gate + unat (gateSize_of momentData)"
    by (simp only: unat_add_lem)
  with 2 pos show ?case by simp
qed

declare gate_bins.simps [simp del]

definition radial_emit :: "constants \<Rightarrow> 'f sweep_env \<Rightarrow> u16 \<Rightarrow> error + 'f emission" where
  "radial_emit c e radial =
     (case moment_data_block (e_radarData e ! unat radial) (e_dataBlockType e) of
        None \<Rightarrow> Inl NullPointer
      | Some momentData \<Rightarrow>
          if data_word_size (e_momentData0 e) \<noteq> data_word_size momentData
          then Inr ([], [], [DifferentWordSize radial])
          else collect (map (bin_emit c e radial momentData)
                         (gate_bins c e momentData (startGate_of momentData) 0)))"

definition sweep_emit :: "constants \<Rightarrow> 'f sweep_env \<Rightarrow> error + 'f emission" where
  "sweep_emit c e = collect (map (\<lambda>k. radial_emit c e (of_nat k)) [0..<radials e])"

text \<open>Writing an emission into the buffers at the write positions.\<close>

definition overwrite :: "'a list \<Rightarrow> nat \<Rightarrow> 'a list \<Rightarrow> 'a list" where
  "overwrite buf k xs = take k buf @ xs @ drop (k + length xs) buf"

definition put :: "bool \<Rightarrow> 'f sweep_buffers \<Rightarrow> 'f emission \<Rightarrow> 'f sweep_buffers" where
  "put w8 b out =
     (case out of (vs, ms, ws) \<Rightarrow>
        b\<lparr>vertices := overwrite (vertices b) (vIndex b) vs,
          vIndex := vIndex b + length vs,
          dataMoments8 :=
            (if w8 then overwrite (dataMoments8 b) (mIndex b) (map ucast ms) else dataMoments8 b),
          dataMoments16 :=
            (if w8 then dataMoments16 b else overwrite (dataMoments16 b) (mIndex b) ms),
          mIndex := mIndex b + length ms,
          logged := logged b @ ws\<rparr>)"

text \<open>The values \<^verbatim>\<open>ComputeSweep\<close> fixes for its loops, from its inputs.\<close>

definition sweep_env_of :: "'f float_ops \<Rightarrow> 'f RadarProductManager \<Rightarrow> DataBlockType \<Rightarrow> 'f MomentDataBlock \<Rightarrow> 'f VolumeDataBlock \<Rightarrow> 'f sweep_env" where
  "sweep_env_of fp mgr t md0 vol =
     (let radarData = GetLevel2Data mgr t 0
      in \<lparr>e_radarData = radarData,
          e_coordinates = coordinates mgr (if length radarData = 720 then Deg_0_5 else Deg_1),
          e_dataBlockType = t,
          e_momentData0 = md0,
          e_latitude = latitude vol,
          e_longitude = longitude vol,
          e_snrThreshold =
            of_int (f_lroundf fp
              (f_add fp
                 (f_div fp (f_mul fp (f_of_int fp (snr_threshold_raw md0)) (scale md0))
                    (f_of_int fp 10))
                 (offset md0))),
          e_startRadial =
            of_int (f_lroundf fp
              (f_mul fp (azimuth_angle (radarData ! 0))
                 (f_div fp (f_of_int fp 2)
                    (f_of_int fp (clamp_int8 (azimuth_resolution_spacing (radarData ! 0)) 1 2)))))\<rparr>)"

text \<open>
  An emission of at most \<open>n\<close> bins: two coordinates per raw value, at most six raw values
  per bin.
\<close>

definition bounded_emission :: "error + 'f emission \<Rightarrow> nat \<Rightarrow> bool" where
  "bounded_emission r n \<longleftrightarrow>
     (case r of Inl err \<Rightarrow> True | Inr (vs, ms, ws) \<Rightarrow> length vs = 2 * length ms \<and> length ms \<le> 6 * n)"

text \<open>The buffers have room for \<open>n\<close> more radials.\<close>

definition has_room :: "'f sweep_env \<Rightarrow> 'f sweep_buffers \<Rightarrow> nat \<Rightarrow> bool" where
  "has_room e b n \<longleftrightarrow>
     vIndex b + 12 * (unat (gates e) * n) \<le> length (vertices b)
     \<and> mIndex b + 6 * (unat (gates e) * n)
        \<le> (if data_word_size (e_momentData0 e) = 8
            then length (dataMoments8 b) else length (dataMoments16 b))"

text \<open>The view after a sweep with the emission \<open>out\<close> has been published.\<close>

definition publish :: "'f float_ops \<Rightarrow> 'f Level2ProductViewImpl \<Rightarrow> 'f MomentDataBlock \<Rightarrow> 'f VolumeDataBlock \<Rightarrow> 'f DigitalRadarData \<Rightarrow> 'f emission \<Rightarrow> 'f Level2ProductViewImpl" where
  "publish fp p md0 vol rd0 out =
     (case out of (vs, ms, ws) \<Rightarrow>
        UpdateColorTable fp
          (p\<lparr>p_momentDataBlock0 := Some md0,
             p_latitude := latitude vol,
             p_longitude := longitude vol,
             p_sweepTime := TimePoint (modified_julian_date rd0) (collection_time rd0),
             p_vertices := vs,
             p_dataMoments8 := (if data_word_size md0 = 8 then map ucast ms else []),
             p_dataMoments16 := (if data_word_size md0 = 8 then [] else ms),
             warnings := warnings p @ ws,
             signals := signals p @ [SweepComputed]\<rparr>))"

text \<open>The buffers as \<^verbatim>\<open>ComputeSweep\<close> sets them up for \<open>n\<close> radials.\<close>

definition initial_buffers :: "'f float_ops \<Rightarrow> 'f Level2ProductViewImpl \<Rightarrow> 'f MomentDataBlock \<Rightarrow> nat \<Rightarrow> 'f sweep_buffers" where
  "initial_buffers fp p md0 n =
     \<lparr>vertices = replicate (n * unat (number_of_data_moment_gates md0) * VERTICES_PER_BIN * VALUES_PER_VERTEX)
                   (f_of_int fp 0),
      vIndex = 0,
      dataMoments8 =
        (if data_word_size md0 = 8
         then resize (n * unat (number_of_data_moment_gates md0) * VERTICES_PER_BIN) 0 (p_dataMoments8 p)
         else []),
      dataMoments16 =
        (if data_word_size md0 = 8
         then []
         else resize (n * unat (number_of_data_moment_gates md0) * VERTICES_PER_BIN) 0 (p_dataMoments16 p)),
      mIndex = 0,
      logged = []\<rparr>"

text \<open>The three components of an emission; empty for a fault.\<close>

definition vertices_of :: "error + 'f emission \<Rightarrow> 'f list" where
  "vertices_of r = (case r of Inl err \<Rightarrow> [] | Inr (vs, ms, ws) \<Rightarrow> vs)"

definition values_of :: "error + 'f emission \<Rightarrow> u16 list" where
  "values_of r = (case r of Inl err \<Rightarrow> [] | Inr (vs, ms, ws) \<Rightarrow> ms)"

definition warnings_of :: "error + 'f emission \<Rightarrow> warning list" where
  "warnings_of r = (case r of Inl err \<Rightarrow> [] | Inr (vs, ms, ws) \<Rightarrow> ws)"

text \<open>
  The \<open>n\<close> raw values stored from position \<open>k\<close> on in the raw-value buffer of the
  radial's word size, given in 16 bits.
\<close>

definition raw_slice :: "bool \<Rightarrow> 'f sweep_buffers \<Rightarrow> nat \<Rightarrow> nat \<Rightarrow> u16 list" where
  "raw_slice w8 b k n =
     (if w8 then map ucast (take n (drop k (dataMoments8 b)))
      else take n (drop k (dataMoments16 b)))"


section \<open>Example inputs\<close>

text \<open>
  Small concrete radar records, used to run the definitions above. In the examples a
  float is the real number it denotes and the operations are the exact ones. All
  float values of the examples and all intermediate results are integers below
  \<open>2 ^ 24\<close> in magnitude or halves of such integers, and no example divides by zero:
  on these values every binary32 operation is exact, so that the exact operations
  give what the platform gives.
\<close>

definition round_half_away :: "real \<Rightarrow> int" where
  "round_half_away x = (if 0 \<le> x then \<lfloor>x + 1 / 2\<rfloor> else \<lceil>x - 1 / 2\<rceil>)"

definition ex_float_ops :: "real float_ops" where
  "ex_float_ops =
     \<lparr>f_of_int = real_of_int,
      f_add = (+),
      f_sub = (-),
      f_mul = (*),
      f_div = (/),
      f_eq = (=),
      f_lroundf = round_half_away\<rparr>"

definition ex_volume :: "real VolumeDataBlock" where
  "ex_volume = \<lparr>latitude = 35, longitude = - 97\<rparr>"

definition ex_radial :: "real \<Rightarrow> real MomentDataBlock option \<Rightarrow> real DigitalRadarData" where
  "ex_radial az mb =
     \<lparr>moment_data_block = (\<lambda>t. if t = MomentRef then mb else None),
      volume_data_block = Some ex_volume,
      azimuth_angle = az,
      azimuth_resolution_spacing = 1,
      modified_julian_date = 2,
      collection_time = 5\<rparr>"

definition ex_manager :: "real DigitalRadarData list \<Rightarrow> real list \<Rightarrow> real RadarProductManager" where
  "ex_manager rs tbl = \<lparr>GetLevel2Data = (\<lambda>t n. rs), coordinates = (\<lambda>r. tbl)\<rparr>"

definition ex_constants :: constants where
  "ex_constants = \<lparr>MAX_RADIALS = 720, MAX_DATA_MOMENT_GATES = 4\<rparr>"

definition ex_view :: "real Level2ProductViewImpl" where
  "ex_view = (Level2ProductViewImpl_new ex_float_ops Reflectivity 0 0)
     \<lparr>p_vertices := [1, 2, 3, 4, 5, 6], p_dataMoments8 := [7, 7, 7]\<rparr>"

definition ex_block :: "u8 \<Rightarrow> int \<Rightarrow> u16 list \<Rightarrow> real MomentDataBlock" where
  "ex_block w snr samples =
     \<lparr>data_word_size = w,
      scale = 2,
      offset = 66,
      snr_threshold_raw = snr,
      data_moment_range_raw = 125,
      data_moment_range_sample_interval_raw = 250,
      number_of_data_moment_gates = of_nat (length samples),
      data_moments = samples\<rparr>"

definition ex_table :: "bool \<Rightarrow> real ColorTable" where
  "ex_table valid =
     \<lparr>IsValid = valid,
      Color = (\<lambda>f. if f < 30 then (0, 0, 255, 255) else (255, 0, 0, 255))\<rparr>"

definition ex_table_green :: "real ColorTable" where
  "ex_table_green = \<lparr>IsValid = True, Color = (\<lambda>f. (0, 255, 0, 255))\<rparr>"

definition ex_lut_view :: "real ColorTable shared_ptr \<Rightarrow> real Level2ProductViewImpl" where
  "ex_lut_view t = (Level2ProductViewImpl_new ex_float_ops Reflectivity 0 0)
     \<lparr>p_momentDataBlock0 := Some (ex_block 8 10 []), p_colorTable := t\<rparr>"

definition ex_coordinates :: "real list" where
  "ex_coordinates = map real [0..<40]"

definition ex_view0 :: "real Level2ProductViewImpl" where
  "ex_view0 = Level2ProductViewImpl_new ex_float_ops Reflectivity 0 0"

definition ex_mixed :: "real DigitalRadarData list" where
  "ex_mixed = [ex_radial 0 (Some (ex_block 8 10 [100, 50])),
               ex_radial 0 (Some (ex_block 16 10 [100, 50]))]"

definition ex_two_thresholds :: "real DigitalRadarData list" where
  "ex_two_thresholds = [ex_radial 0 (Some (ex_block 8 10 [100])),
                        ex_radial 0 (Some (ex_block 8 170 [80]))]"

definition ex_negative :: "real DigitalRadarData list" where
  "ex_negative = [ex_radial 0 (Some (ex_block 8 (- 340) [100, 50]))]"

definition ex_wrap_block :: "real MomentDataBlock" where
  "ex_wrap_block = (ex_block 8 0 [5])\<lparr>scale := 1, offset := - 65536\<rparr>"

definition ex_missing :: "real DigitalRadarData list" where
  "ex_missing = [ex_radial 0 (Some (ex_block 8 10 [100, 50])), ex_radial 0 None]"

definition ex_two_gates :: "real MomentDataBlock" where
  "ex_two_gates = ex_block 8 10 [100, 90]"

definition ex_env :: "real sweep_env" where
  "ex_env = sweep_env_of ex_float_ops (ex_manager [ex_radial 0 (Some ex_two_gates)] ex_coordinates)
              MomentRef ex_two_gates ex_volume"

definition ex_buffers :: "real sweep_buffers" where
  "ex_buffers = initial_buffers ex_float_ops ex_view0 ex_two_gates 1"





section \<open>Properties\<close>

subsection \<open>Early exits of ComputeSweep\<close>

text \<open>
  Claim C6. If the requested product has no entry in \<open>blockTypes\<close>, or the radial
  sequence is empty, or the first radial has no moment data block of the requested
  type, then \<open>ComputeSweep\<close> returns, and the vertex buffer and both raw-value buffers
  published before the call are unchanged; no signal is emitted. The first hypothesis
  is what the constructor establishes for \<open>p_dataBlockType\<close>.
\<close>

theorem ComputeSweep_keeps_previous_sweep:
  assumes "p_dataBlockType p = (case blockTypes (p_product p) of Some t \<Rightarrow> t | None \<Rightarrow> Unknown)"
    and "blockTypes (p_product p) = None
         \<or> GetLevel2Data mgr (p_dataBlockType p) 0 = []
         \<or> moment_data_block (GetLevel2Data mgr (p_dataBlockType p) 0 ! 0) (p_dataBlockType p) = None"
  shows "\<exists>p'. ComputeSweep fp c mgr p = Some (Inr p')
           \<and> p_vertices p' = p_vertices p
           \<and> p_dataMoments8 p' = p_dataMoments8 p
           \<and> p_dataMoments16 p' = p_dataMoments16 p
           \<and> signals p' = signals p"
proof (cases "p_dataBlockType p = Unknown")
  case True
  then show ?thesis by (simp add: ComputeSweep_def)
next
  case False
  with assms(1) have mapped: "blockTypes (p_product p) \<noteq> None"
    by (auto split: option.splits)
  show ?thesis
  proof (cases "GetLevel2Data mgr (p_dataBlockType p) 0 = []")
    case True
    with False show ?thesis by (simp add: ComputeSweep_def)
  next
    case nonempty: False
    with assms(2) mapped
    have "moment_data_block (GetLevel2Data mgr (p_dataBlockType p) 0 ! 0) (p_dataBlockType p) = None"
      by simp
    with False nonempty show ?thesis by (simp add: ComputeSweep_def Let_def)
  qed
qed

theorem ComputeSweep_keeps_previous_sweep_witness:
  "moment_data_block (GetLevel2Data (ex_manager [ex_radial 0 None] []) (p_dataBlockType ex_view) 0 ! 0)
     (p_dataBlockType ex_view) = None
   \<and> (\<exists>p'. ComputeSweep ex_float_ops ex_constants (ex_manager [ex_radial 0 None] []) ex_view = Some (Inr p')
           \<and> p_vertices p' = [1, 2, 3, 4, 5, 6]
           \<and> p_dataMoments8 p' = [7, 7, 7]
           \<and> p_dataMoments16 p' = []
           \<and> signals p' = [])"
proof -
  have inv: "p_dataBlockType ex_view = (case blockTypes (p_product ex_view) of Some t \<Rightarrow> t | None \<Rightarrow> Unknown)"
    by (simp add: ex_view_def Level2ProductViewImpl_new_def)
  have none: "moment_data_block (GetLevel2Data (ex_manager [ex_radial 0 None] []) (p_dataBlockType ex_view) 0 ! 0)
     (p_dataBlockType ex_view) = None"
    by (simp add: ex_manager_def ex_radial_def)
  from ComputeSweep_keeps_previous_sweep [OF inv, where mgr = "ex_manager [ex_radial 0 None] []"
         and c = ex_constants and fp = ex_float_ops] none
  show ?thesis by (simp add: ex_view_def Level2ProductViewImpl_new_def)
qed

subsection \<open>The colour lookup table\<close>

lemma length_resize: "length (resize n d xs) = n"
  by (simp add: resize_def)

lemma resize_nth:
  "k < n \<Longrightarrow> resize n d xs ! k = (if k < length xs then xs ! k else d)"
  by (simp add: resize_def nth_append)

lemma lut_store_length: "length (lut_store fp ct off sc first_v i lut) = length lut"
  by (simp add: lut_store_def)

lemma fold_lut_store_length:
  "length (fold (lut_store fp ct off sc first_v) is lut) = length lut"
  by (induction "is" arbitrary: lut) (simp_all add: lut_store_length)

lemma unat_of_nat_u16: "j < 65536 \<Longrightarrow> unat (of_nat j :: u16) = j"
  by (simp add: unsigned_of_nat take_bit_nat_eq_self)

lemma lut_store_of_nat_nth:
  assumes "j < 65536" "k < length lut"
  shows "lut_store fp ct off sc first_v (of_nat j) lut ! k =
         (if k = j - unat first_v then Color ct (f_div fp (f_sub fp (f_of_int fp (int j)) off) sc) else lut ! k)"
proof -
  have u: "unat (of_nat j :: u16) = j" using assms(1) by (rule unat_of_nat_u16)
  have ui: "uint (of_nat j :: u16) = int j" by (simp only: uint_nat u)
  show ?thesis unfolding lut_store_def Let_def u ui using assms(2) by simp
qed

lemma fold_lut_store_upt:
  assumes "n \<le> 65536" "unat first_v \<le> m" "k < length lut"
  shows "fold (lut_store fp ct off sc first_v) (map of_nat [m..<n]) lut ! k =
         (if m \<le> unat first_v + k \<and> unat first_v + k < n
          then Color ct (f_div fp (f_sub fp (f_of_int fp (int (unat first_v + k))) off) sc)
          else lut ! k)"
  using assms
proof (induction n)
  case 0
  then show ?case by simp
next
  case (Suc n)
  show ?case
  proof (cases "m \<le> n")
    case False
    then show ?thesis by auto
  next
    case True
    let ?prev = "fold (lut_store fp ct off sc first_v) (map of_nat [m..<n]) lut"
    have n: "n < 65536" using Suc.prems(1) by simp
    have len: "k < length ?prev"
      using Suc.prems(3) by (simp add: fold_lut_store_length)
    have IH: "?prev ! k =
         (if m \<le> unat first_v + k \<and> unat first_v + k < n
          then Color ct (f_div fp (f_sub fp (f_of_int fp (int (unat first_v + k))) off) sc)
          else lut ! k)"
      using Suc by simp
    have step: "fold (lut_store fp ct off sc first_v) (map of_nat [m..<Suc n]) lut =
                lut_store fp ct off sc first_v (of_nat n) ?prev"
      using True by simp
    have "lut_store fp ct off sc first_v (of_nat n) ?prev ! k =
          (if k = n - unat first_v then Color ct (f_div fp (f_sub fp (f_of_int fp (int n)) off) sc) else ?prev ! k)"
      using n len by (rule lut_store_of_nat_nth)
    with step IH True Suc.prems(2) show ?thesis
      by (auto simp del: upt_Suc)
  qed
qed

lemma product_range_le: "unat (fst (product_range pr)) \<le> unat (snd (product_range pr))"
  by (cases pr) (simp_all add: product_range_def)

lemma rebuilt_lut_nth:
  assumes "unat first_v \<le> unat last_v" "k \<le> unat last_v - unat first_v"
  shows "fold (lut_store fp ct off sc first_v) (irange first_v last_v)
           (resize (unat last_v - unat first_v + 1) d old) ! k =
         (if k < unat last_v - unat first_v
          then Color ct (f_div fp (f_sub fp (f_of_int fp (int (unat first_v + k))) off) sc)
          else if k < length old then old ! k else d)"
proof -
  have "unat last_v < 2 ^ LENGTH(16)" by (rule unsigned_less)
  then have b: "unat last_v \<le> 65536" by simp
  have len: "k < length (resize (unat last_v - unat first_v + 1) d old)"
    using assms(2) by (simp add: length_resize)
  show ?thesis
    unfolding irange_def
    using fold_lut_store_upt [OF b order_refl len, where fp = fp and ct = ct and off = off and sc = sc] assms
    by (auto simp add: resize_nth)
qed


lemma UpdateColorTable_skip:
  "p_momentDataBlock0 p = None \<or> p_colorTable p = None
   \<or> (\<exists>a ct. p_colorTable p = Some (a, ct) \<and> \<not> IsValid ct)
   \<Longrightarrow> UpdateColorTable fp p = p"
  by (auto simp add: UpdateColorTable_def split: option.splits)

lemma UpdateColorTable_hit:
  "p_momentDataBlock0 p = Some md0 \<Longrightarrow> cache_hit fp p md0 \<Longrightarrow> UpdateColorTable fp p = p"
  by (auto simp add: UpdateColorTable_def cache_hit_def Let_def split: option.splits)

lemma UpdateColorTable_miss:
  assumes "p_momentDataBlock0 p = Some md0" "p_colorTable p = Some (a, ct)" "IsValid ct"
    and "\<not> cache_hit fp p md0"
  shows "UpdateColorTable fp p =
         p\<lparr>p_colorTableLut :=
              fold (lut_store fp ct (offset md0) (scale md0) (fst (product_range (p_product p))))
                (irange (fst (product_range (p_product p))) (snd (product_range (p_product p))))
                (resize (unat (snd (product_range (p_product p))) - unat (fst (product_range (p_product p))) + 1)
                   rgba8_default (p_colorTableLut p)),
            p_savedColorTable := p_colorTable p,
            p_savedOffset := offset md0,
            p_savedScale := scale md0,
            signals := signals p @ [ColorTableUpdated]\<rparr>"
  using assms
  by (auto simp add: UpdateColorTable_def cache_hit_def Let_def case_prod_beta)


text \<open>
  What a call of \<open>UpdateColorTable\<close> does when a reference moment block exists and the
  colour table is present and valid. If the saved colour table pointer, offset and
  scale are the current ones, nothing changes: the lookup table stays and no signal is
  emitted. Otherwise the lookup table gets \<open>rangeMax - rangeMin + 1\<close> entries, the
  entry of every raw index \<open>i\<close> with \<open>rangeMin \<le> i < rangeMax\<close> is recomputed as
  \<open>Color ((i - offset) / scale)\<close>, the entry of \<open>rangeMax\<close> is the one the lookup table
  had before the call (the default pixel if it had none), \<open>ColorTableUpdated\<close> is
  emitted, and the current pointer, offset and scale are saved.
\<close>

lemma UpdateColorTable_rebuild:
  assumes "p_momentDataBlock0 p = Some md0" "p_colorTable p = Some (a, ct)" "IsValid ct"
    and "product_range (p_product p) = (rangeMin, rangeMax)"
  shows "(cache_hit fp p md0 \<longrightarrow> UpdateColorTable fp p = p)
       \<and> (\<not> cache_hit fp p md0 \<longrightarrow>
            length (p_colorTableLut (UpdateColorTable fp p)) = unat rangeMax - unat rangeMin + 1
          \<and> (\<forall>i. unat rangeMin \<le> i \<and> i < unat rangeMax \<longrightarrow>
                 p_colorTableLut (UpdateColorTable fp p) ! (i - unat rangeMin)
                   = Color ct (f_div fp (f_sub fp (f_of_int fp (int i)) (offset md0)) (scale md0)))
          \<and> p_colorTableLut (UpdateColorTable fp p) ! (unat rangeMax - unat rangeMin)
               = (if unat rangeMax - unat rangeMin < length (p_colorTableLut p)
                  then p_colorTableLut p ! (unat rangeMax - unat rangeMin) else rgba8_default)
          \<and> signals (UpdateColorTable fp p) = signals p @ [ColorTableUpdated]
          \<and> p_savedColorTable (UpdateColorTable fp p) = p_colorTable p
          \<and> p_savedOffset (UpdateColorTable fp p) = offset md0
          \<and> p_savedScale (UpdateColorTable fp p) = scale md0)"
proof (intro conjI impI)
  assume "cache_hit fp p md0"
  with assms(1) show "UpdateColorTable fp p = p" by (rule UpdateColorTable_hit)
next
  assume miss: "\<not> cache_hit fp p md0"
  note eq = UpdateColorTable_miss [OF assms(1-3) miss]
  have le: "unat rangeMin \<le> unat rangeMax"
    using product_range_le [of "p_product p"] assms(4) by simp
  show "length (p_colorTableLut (UpdateColorTable fp p)) = unat rangeMax - unat rangeMin + 1"
    by (simp add: eq assms(4) fold_lut_store_length length_resize)
  show "signals (UpdateColorTable fp p) = signals p @ [ColorTableUpdated]"
    by (simp add: eq)
  show "p_savedColorTable (UpdateColorTable fp p) = p_colorTable p"
    and "p_savedOffset (UpdateColorTable fp p) = offset md0"
    and "p_savedScale (UpdateColorTable fp p) = scale md0"
    by (simp_all add: eq)
  from rebuilt_lut_nth [OF le order_refl, where fp = fp and ct = ct and off = "offset md0"
         and sc = "scale md0" and d = rgba8_default and old = "p_colorTableLut p"]
  show "p_colorTableLut (UpdateColorTable fp p) ! (unat rangeMax - unat rangeMin)
          = (if unat rangeMax - unat rangeMin < length (p_colorTableLut p)
             then p_colorTableLut p ! (unat rangeMax - unat rangeMin) else rgba8_default)"
    by (simp add: eq assms(4))
  show "\<forall>i. unat rangeMin \<le> i \<and> i < unat rangeMax \<longrightarrow>
          p_colorTableLut (UpdateColorTable fp p) ! (i - unat rangeMin)
            = Color ct (f_div fp (f_sub fp (f_of_int fp (int i)) (offset md0)) (scale md0))"
  proof (intro allI impI)
    fix i assume i: "unat rangeMin \<le> i \<and> i < unat rangeMax"
    then have k: "i - unat rangeMin \<le> unat rangeMax - unat rangeMin" by arith
    from i have lt: "i - unat rangeMin < unat rangeMax - unat rangeMin"
      and readd: "unat rangeMin + (i - unat rangeMin) = i" by arith+
    from rebuilt_lut_nth [OF le k, where fp = fp and ct = ct and off = "offset md0"
           and sc = "scale md0" and d = rgba8_default and old = "p_colorTableLut p"] lt readd
    show "p_colorTableLut (UpdateColorTable fp p) ! (i - unat rangeMin)
            = Color ct (f_div fp (f_sub fp (f_of_int fp (int i)) (offset md0)) (scale md0))"
      by (simp add: eq assms(4))
  qed
qed


text \<open>
  Claim C8 at a concrete input. A reflectivity view (raw indices 2 to 255), the
  reference block with offset 66 and scale 2, and a valid colour table at address 16:
  the first call builds the lookup table and saves the key, and a second call with the
  same key changes nothing. Then another valid colour table, all green, is loaded at
  address 24. The saved pointer differs from the current one, \<open>ColorTableUpdated\<close> is
  emitted again and the entries of the raw indices 2 to 254 are green, but the entry of
  raw index 255 is not \<open>Color ((255 - 66) / 2)\<close> of the new table: the loop over
  \<open>irange 2 255\<close> ends at 254, and the last entry still holds the default pixel that
  \<open>resize\<close> put there in the first call.
\<close>

theorem UpdateColorTable_rebuild_misses_last_entry:
  "UpdateColorTable ex_float_ops (UpdateColorTable ex_float_ops (ex_lut_view (Some (16, ex_table True))))
     = UpdateColorTable ex_float_ops (ex_lut_view (Some (16, ex_table True)))
   \<and> \<not> ptr_eq (p_savedColorTable (UpdateColorTable ex_float_ops (ex_lut_view (Some (16, ex_table True)))))
              (Some (24, ex_table_green))
   \<and> signals (LoadColorTable ex_float_ops (Some (24, ex_table_green))
        (UpdateColorTable ex_float_ops (ex_lut_view (Some (16, ex_table True)))))
     = [ColorTableUpdated, ColorTableUpdated]
   \<and> length (p_colorTableLut (LoadColorTable ex_float_ops (Some (24, ex_table_green))
        (UpdateColorTable ex_float_ops (ex_lut_view (Some (16, ex_table True)))))) = 254
   \<and> p_colorTableLut (LoadColorTable ex_float_ops (Some (24, ex_table_green))
        (UpdateColorTable ex_float_ops (ex_lut_view (Some (16, ex_table True))))) ! (254 - 2)
     = (0, 255, 0, 255)
   \<and> p_colorTableLut (LoadColorTable ex_float_ops (Some (24, ex_table_green))
        (UpdateColorTable ex_float_ops (ex_lut_view (Some (16, ex_table True))))) ! (255 - 2)
     = (0, 0, 0, 0)
   \<and> Color ex_table_green
       (f_div ex_float_ops (f_sub ex_float_ops (f_of_int ex_float_ops 255) (offset (ex_block 8 10 [])))
          (scale (ex_block 8 10 []))) = (0, 255, 0, 255)"
proof -
  let ?v = "ex_lut_view (Some (16, ex_table True))"
  let ?md = "ex_block 8 10 []"
  let ?p1 = "UpdateColorTable ex_float_ops ?v"
  let ?q = "?p1\<lparr>p_colorTable := Some (24, ex_table_green)\<rparr>"
  let ?p2 = "LoadColorTable ex_float_ops (Some (24, ex_table_green)) ?p1"
  have b: "p_momentDataBlock0 ?v = Some ?md"
    and t: "p_colorTable ?v = Some (16, ex_table True)"
    and r: "product_range (p_product ?v) = (2, 255)"
    and s: "signals ?v = []"
    and old: "p_colorTableLut ?v = []"
    by (simp_all add: ex_lut_view_def Level2ProductViewImpl_new_def product_range_def)
  have valid: "IsValid (ex_table True)" by (simp add: ex_table_def)
  have miss: "\<not> cache_hit ex_float_ops ?v ?md"
    by (simp add: cache_hit_def ptr_eq_def ex_lut_view_def Level2ProductViewImpl_new_def)
  note eq1 = UpdateColorTable_miss [OF b t valid miss]
  have b1: "p_momentDataBlock0 ?p1 = Some ?md"
    and t1: "p_colorTable ?p1 = Some (16, ex_table True)"
    and r1: "product_range (p_product ?p1) = (2, 255)"
    and s1: "signals ?p1 = [ColorTableUpdated]"
    and k1: "p_savedColorTable ?p1 = Some (16, ex_table True)"
      "p_savedOffset ?p1 = offset ?md" "p_savedScale ?p1 = scale ?md"
    by (simp_all add: eq1 b t r s)
  have len1: "length (p_colorTableLut ?p1) = 254"
    by (simp add: eq1 r fold_lut_store_length length_resize)
  have le: "unat (2::u16) \<le> unat (255::u16)" by simp
  have k253: "(253::nat) \<le> unat (255::u16) - unat (2::u16)"
    and k252: "(252::nat) \<le> unat (255::u16) - unat (2::u16)" by simp_all
  from rebuilt_lut_nth [OF le k253, where fp = ex_float_ops and ct = "ex_table True"
         and off = "offset ?md" and sc = "scale ?md" and d = rgba8_default and old = "[]"]
  have last1: "p_colorTableLut ?p1 ! 253 = (0, 0, 0, 0)"
    by (simp add: eq1 r old rgba8_default_def)
  have feq: "f_eq ex_float_ops x x" for x by (simp add: ex_float_ops_def)
  have hit1: "cache_hit ex_float_ops ?p1 ?md"
    by (simp add: cache_hit_def ptr_eq_def k1 t1 feq)
  have again: "UpdateColorTable ex_float_ops ?p1 = ?p1"
    using b1 hit1 by (rule UpdateColorTable_hit)
  have differs: "\<not> ptr_eq (p_savedColorTable ?p1) (Some (24, ex_table_green))"
    by (simp add: k1 ptr_eq_def)
  have bq: "p_momentDataBlock0 ?q = Some ?md"
    and tq: "p_colorTable ?q = Some (24, ex_table_green)"
    and rq: "product_range (p_product ?q) = (2, 255)"
    and sq: "signals ?q = [ColorTableUpdated]"
    and lq: "p_colorTableLut ?q = p_colorTableLut ?p1"
    by (simp_all add: b1 r1 s1)
  have validq: "IsValid ex_table_green" by (simp add: ex_table_green_def)
  have green: "Color ex_table_green x = (0, 255, 0, 255)" for x by (simp add: ex_table_green_def)
  have missq: "\<not> cache_hit ex_float_ops ?q ?md"
    by (simp add: cache_hit_def ptr_eq_def k1)
  have p2: "?p2 = UpdateColorTable ex_float_ops ?q" by (simp add: LoadColorTable_def)
  note eq2 = UpdateColorTable_miss [OF bq tq validq missq]
  have sig2: "signals ?p2 = [ColorTableUpdated, ColorTableUpdated]"
    by (simp only: p2 eq2) (simp add: s1)
  have lut2: "p_colorTableLut ?p2 =
              fold (lut_store ex_float_ops ex_table_green (offset ?md) (scale ?md) 2) (irange 2 255)
                (resize (unat (255::u16) - unat (2::u16) + 1) rgba8_default (p_colorTableLut ?p1))"
    by (simp only: p2 eq2) (simp add: r1)
  have len2: "length (p_colorTableLut ?p2) = 254"
    by (simp add: lut2 fold_lut_store_length length_resize)
  from rebuilt_lut_nth [OF le k252, where fp = ex_float_ops and ct = ex_table_green
         and off = "offset ?md" and sc = "scale ?md" and d = rgba8_default
         and old = "p_colorTableLut ?p1"]
  have n252: "p_colorTableLut ?p2 ! 252 = (0, 255, 0, 255)"
    by (simp add: lut2 green)
  from rebuilt_lut_nth [OF le k253, where fp = ex_float_ops and ct = ex_table_green
         and off = "offset ?md" and sc = "scale ?md" and d = rgba8_default
         and old = "p_colorTableLut ?p1"]
  have n253: "p_colorTableLut ?p2 ! 253 = (0, 0, 0, 0)"
    by (simp add: lut2 len1 last1)
  have col: "Color ex_table_green
       (f_div ex_float_ops (f_sub ex_float_ops (f_of_int ex_float_ops 255) (offset ?md)) (scale ?md))
       = (0, 255, 0, 255)"
    by (rule green)
  from again differs sig2 len2 n252 n253 col show ?thesis by simp
qed


text \<open>
  Claim C2 at a concrete input: a reflectivity view without a lookup table, the block
  with offset 66 and scale 2, a valid colour table. The lookup table gets 254 entries,
  but the entry of raw index 255 is not \<open>Color ((255 - 66) / 2)\<close>: the loop runs over
  \<open>irange 2 255\<close>, which ends at 254, and the last entry keeps what \<open>resize\<close> put
  there.
\<close>

theorem UpdateColorTable_last_entry_not_set:
  "product_range Reflectivity = (2, 255)
   \<and> length (p_colorTableLut (UpdateColorTable ex_float_ops (ex_lut_view (Some (16, ex_table True))))) = 254
   \<and> p_colorTableLut (UpdateColorTable ex_float_ops (ex_lut_view (Some (16, ex_table True)))) ! (255 - 2) = (0, 0, 0, 0)
   \<and> Color (ex_table True)
       (f_div ex_float_ops (f_sub ex_float_ops (f_of_int ex_float_ops 255) (offset (ex_block 8 10 [])))
          (scale (ex_block 8 10 []))) = (255, 0, 0, 255)"
proof -
  let ?v = "ex_lut_view (Some (16, ex_table True))"
  let ?md = "ex_block 8 10 []"
  have b: "p_momentDataBlock0 ?v = Some ?md"
    and t: "p_colorTable ?v = Some (16, ex_table True)"
    and r: "product_range (p_product ?v) = (2, 255)"
    and old: "p_colorTableLut ?v = []"
    by (simp_all add: ex_lut_view_def Level2ProductViewImpl_new_def product_range_def)
  have valid: "IsValid (ex_table True)" by (simp add: ex_table_def)
  have miss: "\<not> cache_hit ex_float_ops ?v ?md"
    by (simp add: cache_hit_def ptr_eq_def ex_lut_view_def Level2ProductViewImpl_new_def)
  have lut: "p_colorTableLut (UpdateColorTable ex_float_ops ?v) =
             fold (lut_store ex_float_ops (ex_table True) (offset ?md) (scale ?md) 2) (irange 2 255)
               (resize (unat (255::u16) - unat (2::u16) + 1) rgba8_default [])"
    by (subst UpdateColorTable_miss [OF b t valid miss]) (simp add: r old)
  have le: "unat (2::u16) \<le> unat (255::u16)" by simp
  have k: "(253::nat) \<le> unat (255::u16) - unat (2::u16)" by simp
  from rebuilt_lut_nth [OF le k, where fp = ex_float_ops and ct = "ex_table True" and off = "offset ?md"
         and sc = "scale ?md" and d = rgba8_default and old = "[]"]
  have last: "p_colorTableLut (UpdateColorTable ex_float_ops ?v) ! 253 = (0, 0, 0, 0)"
    by (simp add: lut rgba8_default_def)
  have len: "length (p_colorTableLut (UpdateColorTable ex_float_ops ?v)) = 254"
    by (simp add: lut fold_lut_store_length length_resize)
  have col: "Color (ex_table True)
       (f_div ex_float_ops (f_sub ex_float_ops (f_of_int ex_float_ops 255) (offset ?md)) (scale ?md)) = (255, 0, 0, 255)"
    by (simp add: ex_table_def ex_block_def ex_float_ops_def)
  from last len col show ?thesis by (simp add: product_range_def)
qed

subsection \<open>The loops write what the emission functions describe\<close>

lemma overwrite_Nil: "overwrite buf k [] = buf"
  by (simp add: overwrite_def)

lemma length_overwrite:
  "k + length xs \<le> length buf \<Longrightarrow> length (overwrite buf k xs) = length buf"
  by (simp add: overwrite_def)

lemma take_overwrite:
  "k + length xs \<le> length buf \<Longrightarrow> take (k + length xs) (overwrite buf k xs) = take k buf @ xs"
  by (simp add: overwrite_def)

lemma overwrite_overwrite:
  assumes "k + length xs + length ys \<le> length buf"
  shows "overwrite (overwrite buf k xs) (k + length xs) ys = overwrite buf k (xs @ ys)"
proof -
  have "take (k + length xs) (overwrite buf k xs) = take k buf @ xs"
    using assms by (simp add: take_overwrite)
  moreover have "drop (k + length xs + length ys) (overwrite buf k xs)
                 = drop (k + length xs + length ys) buf"
    using assms by (simp add: overwrite_def ac_simps)
  ultimately show ?thesis
    by (simp add: overwrite_def [of "overwrite buf k xs"] overwrite_def [of buf k "xs @ ys"] ac_simps)
qed

lemma store_overwrite:
  "k + length xs \<le> length buf \<Longrightarrow> store buf k xs = Inr (overwrite buf k xs)"
  by (simp add: store_def overwrite_def)

lemma read_all_length: "read_all tbl ks = Inr vs \<Longrightarrow> length vs = length ks"
  by (induction ks arbitrary: vs) (auto split: if_splits sum.splits)

lemma bin_vertices_length:
  "bin_vertices c e radial gs gate = Inr vs \<Longrightarrow> length vs = (if gate > 0 then 12 else 6)"
  by (auto simp add: bin_vertices_def quad_offsets_def origin_offsets_def Let_def
        split: if_splits sum.splits dest!: read_all_length)

lemma bin_emit_lengths:
  assumes "bin_emit c e radial md (gate, i) = Inr (vs, ms, ws)"
  shows "length vs = 2 * length ms" and "length ms \<le> 6" and "ws = []"
  using assms
  by (auto simp add: bin_emit_def split: sum.splits if_splits dest!: bin_vertices_length)

lemma put_empty: "put w8 b ([], [], []) = b"
  by (simp add: put_def overwrite_Nil)

lemma ucast_ucast_u8: "(ucast (ucast (x :: u8) :: u16) :: u8) = x"
  by (rule ucast_up_ucast_id) (simp add: is_up)

lemma unat_ucast_u8: "unat (ucast (x :: u8) :: u16) = unat x"
proof -
  have "uint (ucast x :: u16) = uint x" by (rule uint_up_ucast) (simp add: is_up)
  then show ?thesis by (simp only: unat_eq_nat_uint)
qed

lemma unat_u8_bound: "unat (x :: u8) < 256"
  using unsigned_less [of x, where ?'a = nat] by simp

lemma gate_body_eq:
  assumes "vIndex b + 12 \<le> length (vertices b)"
    and "mIndex b + 6 \<le> (if data_word_size md = 8 then length (dataMoments8 b) else length (dataMoments16 b))"
  shows "gate_body c e radial md b gate i =
         (case bin_emit c e radial md (gate, i) of
            Inl err \<Rightarrow> Inl err
          | Inr out \<Rightarrow> Inr (put (data_word_size md = 8) b out))"
proof (cases "sample_at md i")
  case (Inl err)
  then show ?thesis by (simp add: gate_body_def bin_emit_def)
next
  case (Inr s)
  show ?thesis
  proof (cases "data_word_size md = 8")
    case w8: True
    have bs: "bin_sample md s = ucast (ucast s :: u8)" using w8 by (simp add: bin_sample_def)
    have un: "unat (bin_sample md s) = unat (ucast s :: u8)" by (simp only: bs unat_ucast_u8)
    show ?thesis
    proof (cases "unat (ucast s :: u8) < unat (e_snrThreshold e)")
      case True
      with Inr w8 un show ?thesis
        by (simp add: gate_body_def bin_emit_def put_empty Let_def)
    next
      case False
      from assms(2) w8 have mroom: "mIndex b + 6 \<le> length (dataMoments8 b)" by simp
      show ?thesis
      proof (cases "bin_vertices c e radial (gateSize_of md) gate")
        case (Inl err)
        with Inr False w8 un mroom show ?thesis
          by (simp add: gate_body_def bin_emit_def Let_def store_overwrite store_vertices_def)
      next
        case vs: (Inr vs)
        from bin_vertices_length [OF vs] have len: "length vs \<le> 12" by (simp split: if_splits)
        with assms(1) have room: "vIndex b + length vs \<le> length (vertices b)" by simp
        from Inr False vs w8 un mroom room show ?thesis
          by (simp add: gate_body_def bin_emit_def Let_def store_overwrite
                store_vertices_def put_def bs ucast_ucast_u8)
      qed
    qed
  next
    case w16: False
    have bs: "bin_sample md s = s" using w16 by (simp add: bin_sample_def)
    show ?thesis
    proof (cases "unat s < unat (e_snrThreshold e)")
      case True
      with Inr w16 bs show ?thesis
        by (simp add: gate_body_def bin_emit_def put_empty Let_def)
    next
      case False
      from assms(2) w16 have mroom: "mIndex b + 6 \<le> length (dataMoments16 b)" by simp
      show ?thesis
      proof (cases "bin_vertices c e radial (gateSize_of md) gate")
        case (Inl err)
        with Inr False w16 bs mroom show ?thesis
          by (simp add: gate_body_def bin_emit_def Let_def store_overwrite store_vertices_def)
      next
        case vs: (Inr vs)
        from bin_vertices_length [OF vs] have len: "length vs \<le> 12" by (simp split: if_splits)
        with assms(1) have room: "vIndex b + length vs \<le> length (vertices b)" by simp
        from Inr False vs w16 bs mroom room show ?thesis
          by (simp add: gate_body_def bin_emit_def Let_def store_overwrite
                store_vertices_def put_def)
      qed
    qed
  qed
qed


lemma put_put:
  assumes "vIndex b + length v1 + length v2 \<le> length (vertices b)"
    and "mIndex b + length m1 + length m2 \<le> (if w8 then length (dataMoments8 b) else length (dataMoments16 b))"
  shows "put w8 (put w8 b (v1, m1, w1)) (v2, m2, w2) = put w8 b (v1 @ v2, m1 @ m2, w1 @ w2)"
proof (cases w8)
  case True
  with assms have "mIndex b + length (map ucast m1 :: u8 list) + length (map ucast m2 :: u8 list)
                   \<le> length (dataMoments8 b)" by simp
  from overwrite_overwrite [OF this] overwrite_overwrite [OF assms(1)] True show ?thesis
    by (simp add: put_def)
next
  case False
  with assms have "mIndex b + length m1 + length m2 \<le> length (dataMoments16 b)" by simp
  from overwrite_overwrite [OF this] overwrite_overwrite [OF assms(1)] False show ?thesis
    by (simp add: put_def)
qed

lemma put_lengths:
  assumes "vIndex b + length vs \<le> length (vertices b)"
    and "mIndex b + length ms \<le> (if w8 then length (dataMoments8 b) else length (dataMoments16 b))"
  shows "length (vertices (put w8 b (vs, ms, ws))) = length (vertices b)"
    and "length (dataMoments8 (put w8 b (vs, ms, ws))) = length (dataMoments8 b)"
    and "length (dataMoments16 (put w8 b (vs, ms, ws))) = length (dataMoments16 b)"
    and "vIndex (put w8 b (vs, ms, ws)) = vIndex b + length vs"
    and "mIndex (put w8 b (vs, ms, ws)) = mIndex b + length ms"
  using assms by (auto simp add: put_def length_overwrite)

lemma collect_bounded:
  assumes "\<And>x. x \<in> set xs \<Longrightarrow> bounded_emission x n"
  shows "bounded_emission (collect xs) (n * length xs)"
  using assms
proof (induction xs rule: collect.induct)
  case 1
  show ?case by (simp add: bounded_emission_def)
next
  case (2 err rest)
  show ?case by (simp add: bounded_emission_def)
next
  case (3 vs ms ws rest)
  have hd: "bounded_emission (Inr (vs, ms, ws)) n" using 3(2) by simp
  have "bounded_emission (collect rest) (n * length rest)" using 3 by simp
  with hd show ?case
    by (auto simp add: bounded_emission_def algebra_simps split: sum.splits)
qed

lemma bin_emit_bounded: "bounded_emission (bin_emit c e radial md gi) 1"
proof (cases gi)
  case (Pair gate i)
  show ?thesis
  proof (cases "bin_emit c e radial md (gate, i)")
    case (Inl a)
    with Pair show ?thesis by (simp add: bounded_emission_def)
  next
    case (Inr out)
    obtain vs ms ws where out: "out = (vs, ms, ws)" by (cases out) auto
    from bin_emit_lengths [OF Inr [unfolded out]] Pair Inr out show ?thesis
      by (simp add: bounded_emission_def)
  qed
qed

lemma gate_emit_bounded:
  "bounded_emission (collect (map (bin_emit c e radial md) bins)) (length bins)"
proof -
  have "bounded_emission (collect (map (bin_emit c e radial md) bins))
          (1 * length (map (bin_emit c e radial md) bins))"
  proof (rule collect_bounded)
    fix x assume "x \<in> set (map (bin_emit c e radial md) bins)"
    then obtain gi where "x = bin_emit c e radial md gi" by auto
    then show "bounded_emission x 1" by (simp only: bin_emit_bounded)
  qed
  then show ?thesis by simp
qed

lemma gate_loop_eq:
  assumes "vIndex b + 12 * length (gate_bins c e md gate i) \<le> length (vertices b)"
    and "mIndex b + 6 * length (gate_bins c e md gate i)
         \<le> (if data_word_size md = 8 then length (dataMoments8 b) else length (dataMoments16 b))"
  shows "gate_loop c e radial md b gate i =
         (case collect (map (bin_emit c e radial md) (gate_bins c e md gate i)) of
            Inl err \<Rightarrow> Inl err
          | Inr out \<Rightarrow> Inr (put (data_word_size md = 8) b out))"
  using assms
proof (induction c e radial md b gate i rule: gate_loop.induct)
  case (1 c e radial md b gate i)
  let ?w8 = "data_word_size md = 8"
  show ?case
  proof (cases "unat gate + unat (gateSize_of md) \<le> unat (endGate_of c e md)")
    case False
    then have "gate_bins c e md gate i = []" by (subst gate_bins.simps) simp
    moreover from False have "gate_loop c e radial md b gate i = Inr b"
      by (subst gate_loop.simps) simp
    ultimately show ?thesis by (simp add: put_empty)
  next
    case True
    let ?rest = "gate_bins c e md (gate + gateSize_of md) (i + 1)"
    have bins: "gate_bins c e md gate i = (gate, i) # ?rest"
      using True by (subst gate_bins.simps) simp
    have loop: "gate_loop c e radial md b gate i =
                (case gate_body c e radial md b gate i of
                   Inl err \<Rightarrow> Inl err
                 | Inr b' \<Rightarrow> gate_loop c e radial md b' (gate + gateSize_of md) (i + 1))"
      using True by (subst gate_loop.simps) simp
    from "1.prems" bins
    have r1: "vIndex b + 12 \<le> length (vertices b)"
      and r2: "mIndex b + 6 \<le> (if ?w8 then length (dataMoments8 b) else length (dataMoments16 b))"
      by (auto split: if_splits)
    note body = gate_body_eq [OF r1 r2, of c e radial gate i]
    show ?thesis
    proof (cases "bin_emit c e radial md (gate, i)")
      case (Inl err)
      with body loop bins show ?thesis by simp
    next
      case (Inr o1)
      obtain v1 m1 w1 where o1: "o1 = (v1, m1, w1)" by (cases o1) auto
      from bin_emit_lengths [OF Inr [unfolded o1]]
      have l1: "length v1 \<le> 12" "length m1 \<le> 6" "length v1 = 2 * length m1" by simp_all
      let ?b' = "put ?w8 b (v1, m1, w1)"
      have gb: "gate_body c e radial md b gate i = Inr ?b'"
        using body Inr o1 by simp
      have v1room: "vIndex b + length v1 \<le> length (vertices b)" using r1 l1 by simp
      have m1room: "mIndex b + length m1 \<le> (if ?w8 then length (dataMoments8 b) else length (dataMoments16 b))"
        using r2 l1 by (simp split: if_splits)
      note pl = put_lengths [OF v1room m1room, of w1]
      have room1': "vIndex ?b' + 12 * length ?rest \<le> length (vertices ?b')"
        using "1.prems"(1) bins l1 pl by simp
      have room2': "mIndex ?b' + 6 * length ?rest
                    \<le> (if ?w8 then length (dataMoments8 ?b') else length (dataMoments16 ?b'))"
        using "1.prems"(2) bins l1 pl by (simp split: if_splits)
      note IH = "1.IH" [OF True gb room1' room2']
      show ?thesis
      proof (cases "collect (map (bin_emit c e radial md) ?rest)")
        case (Inl err)
        with IH loop gb bins Inr o1 show ?thesis by simp
      next
        case r: (Inr o2)
        obtain v2 m2 w2 where o2: "o2 = (v2, m2, w2)" by (cases o2) auto
        from gate_emit_bounded [of c e radial md ?rest] r o2
        have l2: "length v2 = 2 * length m2" "length m2 \<le> 6 * length ?rest"
          by (simp_all add: bounded_emission_def)
        have a1: "vIndex b + length v1 + length v2 \<le> length (vertices b)"
          using "1.prems"(1) bins l1 l2 by simp
        have a2: "mIndex b + length m1 + length m2
                  \<le> (if ?w8 then length (dataMoments8 b) else length (dataMoments16 b))"
          using "1.prems"(2) bins l1 l2 by (simp split: if_splits)
        from put_put [OF a1 a2, of w1 w2] IH loop gb bins Inr o1 r o2 show ?thesis by simp
      qed
    qed
  qed
qed

lemma gateSize_of_pos: "1 \<le> unat (gateSize_of md)"
proof -
  have "(1::u16) \<le> gateSize_of md" by (simp add: gateSize_of_def Let_def)
  then show ?thesis by (simp add: word_le_nat_alt)
qed

lemma gate_advance:
  assumes "unat gate + unat gs \<le> unat (eg :: u16)"
  shows "unat (gate + gs) = unat gate + unat (gs::u16)"
proof -
  have "unat eg < 2 ^ LENGTH(16)" by (rule unsigned_less)
  with assms have "unat gate + unat gs < 2 ^ LENGTH(16)" by linarith
  then show ?thesis by (simp only: unat_add_lem)
qed

lemma gate_bins_length:
  "length (gate_bins c e md gate i) * unat (gateSize_of md) \<le> unat (endGate_of c e md) - unat gate"
proof (induction c e md gate i rule: gate_bins.induct)
  case (1 c e md gate i)
  show ?case
  proof (cases "unat gate + unat (gateSize_of md) \<le> unat (endGate_of c e md)")
    case False
    then show ?thesis by (subst gate_bins.simps) simp
  next
    case True
    from gate_advance [OF True]
    have adv: "unat (gate + gateSize_of md) = unat gate + unat (gateSize_of md)" .
    from "1.IH" [OF True] adv
    have "length (gate_bins c e md (gate + gateSize_of md) (i + 1)) * unat (gateSize_of md)
          \<le> unat (endGate_of c e md) - (unat gate + unat (gateSize_of md))" by simp
    with True show ?thesis
      by (subst gate_bins.simps) (simp add: algebra_simps)
  qed
qed

lemma unat_of_nat_le: "unat (of_nat n :: u16) \<le> n"
  by (simp add: unsigned_of_nat take_bit_nat_eq_self_iff take_bit_nat_less_eq_self)

lemma unat_ucast_u32_le: "unat (ucast (x :: u32) :: u16) \<le> unat x"
  by (simp add: unsigned_ucast_eq take_bit_nat_less_eq_self)

lemma endGate_of_le:
  "unat (endGate_of c e md) \<le> unat (startGate_of md) + unat (gates e) * unat (gateSize_of md)"
proof -
  let ?n = "min (ucast (number_of_data_moment_gates md)) (ucast (gates e)) :: u16"
  have "unat ?n \<le> unat (ucast (gates e) :: u16)"
    by (simp add: word_le_nat_alt [symmetric])
  also have "\<dots> \<le> unat (gates e)" by (rule unat_ucast_u32_le)
  finally have n: "unat ?n \<le> unat (gates e)" .
  have "endGate_of c e md \<le> of_nat (unat (startGate_of md) + unat ?n * unat (gateSize_of md))"
    by (simp add: endGate_of_def Let_def)
  then have "unat (endGate_of c e md)
             \<le> unat (of_nat (unat (startGate_of md) + unat ?n * unat (gateSize_of md)) :: u16)"
    by (simp only: word_le_nat_alt)
  also have "\<dots> \<le> unat (startGate_of md) + unat ?n * unat (gateSize_of md)"
    by (rule unat_of_nat_le)
  also have "\<dots> \<le> unat (startGate_of md) + unat (gates e) * unat (gateSize_of md)"
    using n by (simp add: mult_le_mono1)
  finally show ?thesis .
qed

lemma gate_bins_count:
  "length (gate_bins c e md (startGate_of md) 0) \<le> unat (gates e)"
proof -
  let ?gs = "unat (gateSize_of md)"
  have "length (gate_bins c e md (startGate_of md) 0) * ?gs
        \<le> unat (endGate_of c e md) - unat (startGate_of md)"
    by (rule gate_bins_length)
  also have "\<dots> \<le> unat (gates e) * ?gs"
    using endGate_of_le [of c e md] by simp
  finally have "length (gate_bins c e md (startGate_of md) 0) * ?gs \<le> unat (gates e) * ?gs" .
  with gateSize_of_pos [of md] show ?thesis by simp
qed

lemma bounded_emission_mono: "bounded_emission r m \<Longrightarrow> m \<le> n \<Longrightarrow> bounded_emission r n"
  by (auto simp add: bounded_emission_def split: sum.splits)

lemma radial_emit_bounded: "bounded_emission (radial_emit c e radial) (unat (gates e))"
proof (cases "moment_data_block (e_radarData e ! unat radial) (e_dataBlockType e)")
  case None
  then show ?thesis by (simp add: radial_emit_def bounded_emission_def)
next
  case (Some md)
  show ?thesis
  proof (cases "data_word_size (e_momentData0 e) = data_word_size md")
    case False
    with Some show ?thesis by (simp add: radial_emit_def bounded_emission_def)
  next
    case True
    have "bounded_emission (collect (map (bin_emit c e radial md) (gate_bins c e md (startGate_of md) 0)))
            (length (gate_bins c e md (startGate_of md) 0))"
      by (rule gate_emit_bounded)
    then have "bounded_emission (collect (map (bin_emit c e radial md) (gate_bins c e md (startGate_of md) 0)))
            (unat (gates e))"
      using gate_bins_count by (rule bounded_emission_mono)
    with Some True show ?thesis by (simp add: radial_emit_def)
  qed
qed

lemma radial_body_eq:
  assumes "has_room e b 1"
  shows "radial_body c e b radial =
         (case radial_emit c e radial of
            Inl err \<Rightarrow> Inl err
          | Inr out \<Rightarrow> Inr (put (data_word_size (e_momentData0 e) = 8) b out))"
proof (cases "moment_data_block (e_radarData e ! unat radial) (e_dataBlockType e)")
  case None
  then show ?thesis by (simp add: radial_body_def radial_emit_def)
next
  case (Some md)
  show ?thesis
  proof (cases "data_word_size (e_momentData0 e) = data_word_size md")
    case False
    with Some show ?thesis
      by (simp add: radial_body_def radial_emit_def put_def overwrite_Nil)
  next
    case True
    let ?bins = "gate_bins c e md (startGate_of md) 0"
    have cnt: "length ?bins \<le> unat (gates e)" by (rule gate_bins_count)
    then have c12: "12 * length ?bins \<le> 12 * unat (gates e)"
      and c6: "6 * length ?bins \<le> 6 * unat (gates e)" by simp_all
    from assms c12 have r1: "vIndex b + 12 * length ?bins \<le> length (vertices b)"
      by (simp add: has_room_def)
    from assms c6 True
    have r2: "mIndex b + 6 * length ?bins
              \<le> (if data_word_size md = 8 then length (dataMoments8 b) else length (dataMoments16 b))"
      by (simp add: has_room_def split: if_splits)
    have w: "(data_word_size md = 8) = (data_word_size (e_momentData0 e) = 8)"
      using True by simp
    from gate_loop_eq [OF r1 r2, of radial, unfolded w] Some True show ?thesis
      by (simp add: radial_body_def radial_emit_def)
  qed
qed

lemma has_room_put:
  assumes "has_room e b (Suc n)" and "bounded_emission (Inr (vs, ms, ws)) (unat (gates e))"
  shows "has_room e (put (data_word_size (e_momentData0 e) = 8) b (vs, ms, ws)) n"
proof -
  let ?w8 = "data_word_size (e_momentData0 e) = 8"
  from assms(2) have l: "length vs = 2 * length ms" "length ms \<le> 6 * unat (gates e)"
    by (simp_all add: bounded_emission_def)
  from assms(1) l have v: "vIndex b + length vs \<le> length (vertices b)"
    and m: "mIndex b + length ms \<le> (if ?w8 then length (dataMoments8 b) else length (dataMoments16 b))"
    by (simp_all add: has_room_def split: if_splits)
  note pl = put_lengths [OF v m, of ws]
  from assms(1) l pl show ?thesis
    by (simp add: has_room_def split: if_splits)
qed

lemma radial_loop_eq:
  assumes "radials e \<le> 65535" "k \<le> radials e" "has_room e b (radials e - k)"
  shows "radial_loop c e b (of_nat k) =
         Some (case collect (map (\<lambda>j. radial_emit c e (of_nat j)) [k..<radials e]) of
                 Inl err \<Rightarrow> Inl err
               | Inr out \<Rightarrow> Inr (put (data_word_size (e_momentData0 e) = 8) b out))"
  using assms(2,3)
proof (induction "radials e - k" arbitrary: k b)
  case 0
  then have k: "k = radials e" by simp
  with assms(1) have "unat (of_nat k :: u16) = k" by (simp add: unat_of_nat_u16)
  with k show ?case
    by (subst radial_loop.simps) (simp add: put_empty)
next
  case (Suc d)
  let ?w8 = "data_word_size (e_momentData0 e) = 8"
  from Suc(2) have lt: "k < radials e" by simp
  with assms(1) have u: "unat (of_nat k :: u16) = k" by (simp add: unat_of_nat_u16)
  have nxt: "(of_nat k :: u16) + 1 = of_nat (Suc k)" by simp
  have upt: "[k..<radials e] = k # [Suc k..<radials e]" using lt by (rule upt_conv_Cons)
  from Suc(2,4) have room: "has_room e b (Suc d)" by simp
  then have room1: "has_room e b 1" by (simp add: has_room_def)
  note body = radial_body_eq [OF room1, of c "of_nat k"]
  have loop: "radial_loop c e b (of_nat k) =
              (case radial_body c e b (of_nat k) of
                 Inl err \<Rightarrow> Some (Inl err)
               | Inr b' \<Rightarrow> radial_loop c e b' (of_nat (Suc k)))"
    using lt u by (subst radial_loop.simps) (simp only: nxt if_True)
  show ?case
  proof (cases "radial_emit c e (of_nat k)")
    case (Inl err)
    with body loop upt show ?thesis by simp
  next
    case (Inr o1)
    obtain v1 m1 w1 where o1: "o1 = (v1, m1, w1)" by (cases o1) auto
    have b1: "bounded_emission (Inr (v1, m1, w1)) (unat (gates e))"
      using radial_emit_bounded [of c e "of_nat k"] Inr o1 by simp
    let ?b' = "put ?w8 b (v1, m1, w1)"
    have d: "d = radials e - Suc k" using Suc(2) by simp
    have room': "has_room e ?b' (radials e - Suc k)"
      using has_room_put [OF room b1] d by simp
    have le: "Suc k \<le> radials e" using lt by simp
    note IH = Suc(1) [OF d le room']
    show ?thesis
    proof (cases "collect (map (\<lambda>j. radial_emit c e (of_nat j)) [Suc k..<radials e])")
      case (Inl err)
      with IH loop body Inr o1 upt show ?thesis by simp
    next
      case r: (Inr o2)
      obtain v2 m2 w2 where o2: "o2 = (v2, m2, w2)" by (cases o2) auto
      have "bounded_emission (collect (map (\<lambda>j. radial_emit c e (of_nat j)) [Suc k..<radials e]))
              (unat (gates e) * length (map (\<lambda>j. radial_emit c e (of_nat j)) [Suc k..<radials e]))"
      proof (rule collect_bounded)
        fix x assume "x \<in> set (map (\<lambda>j. radial_emit c e (of_nat j)) [Suc k..<radials e])"
        then obtain j where "x = radial_emit c e (of_nat j)" by auto
        then show "bounded_emission x (unat (gates e))" by (simp only: radial_emit_bounded)
      qed
      with r o2 d have l2: "length v2 = 2 * length m2" "length m2 \<le> 6 * (unat (gates e) * d)"
        by (simp_all add: bounded_emission_def)
      from b1 have l1: "length v1 = 2 * length m1" "length m1 \<le> 6 * unat (gates e)"
        by (simp_all add: bounded_emission_def)
      from room l1 l2 have a1: "vIndex b + length v1 + length v2 \<le> length (vertices b)"
        by (simp add: has_room_def)
      from room l1 l2
      have a2: "mIndex b + length m1 + length m2
                \<le> (if ?w8 then length (dataMoments8 b) else length (dataMoments16 b))"
        by (simp add: has_room_def split: if_splits)
      from put_put [OF a1 a2, of w1 w2] IH loop body Inr o1 r o2 upt show ?thesis by simp
    qed
  qed
qed

lemma radial_loop_no_return_aux:
  assumes "radial_loop c e b radial = Some y"
  shows "65536 \<le> radials e \<longrightarrow> (\<exists>err. y = Inl err)"
proof (rule radial_loop.raw_induct
         [where P = "\<lambda>c e b radial y. 65536 \<le> radials e \<longrightarrow> (\<exists>err. y = Inl err)", OF _ assms],
       goal_cases)
  case (1 f c e b radial y)
  show ?case
  proof
    assume big: "65536 \<le> radials e"
    have "unat radial < 2 ^ LENGTH(16)" by (rule unsigned_less)
    with big have lt: "unat radial < radials e" by simp
    show "\<exists>err. y = Inl err"
    proof (cases "radial_body c e b radial")
      case (Inl err)
      with 1(2) lt show ?thesis by auto
    next
      case (Inr b')
      with 1(2) lt have "f c e b' (radial + 1) = Some y" by simp
      from 1(1) [OF this] big show ?thesis by simp
    qed
  qed
qed

lemma radial_loop_no_return:
  "radial_loop c e b radial = Some (Inr b') \<Longrightarrow> radials e \<le> 65535"
  using radial_loop_no_return_aux [of c e b radial "Inr b'"] by auto

lemma resize_overwrite_0: "resize (length xs) d (overwrite buf 0 xs) = xs"
  by (simp add: resize_def overwrite_def)

lemma ComputeSweep_unfold:
  assumes "p_dataBlockType p \<noteq> Unknown"
    and "GetLevel2Data mgr (p_dataBlockType p) 0 = radarData"
    and "radarData \<noteq> []"
    and "moment_data_block (radarData ! 0) (p_dataBlockType p) = Some md0"
    and "volume_data_block (radarData ! 0) = Some vol"
  shows "ComputeSweep fp c mgr p =
         (case radial_loop c (sweep_env_of fp mgr (p_dataBlockType p) md0 vol)
                 (initial_buffers fp p md0 (length radarData)) 0 of
            None \<Rightarrow> None
          | Some (Inl err) \<Rightarrow> Some (Inl err)
          | Some (Inr b') \<Rightarrow>
              Some (Inr (UpdateColorTable fp
                (p\<lparr>p_momentDataBlock0 := Some md0,
                   p_latitude := latitude vol,
                   p_longitude := longitude vol,
                   p_sweepTime := TimePoint (modified_julian_date (radarData ! 0))
                                    (collection_time (radarData ! 0)),
                   p_vertices := resize (vIndex b') (f_of_int fp 0) (vertices b'),
                   p_dataMoments8 :=
                     (if data_word_size md0 = 8
                      then resize (mIndex b') 0 (dataMoments8 b') else dataMoments8 b'),
                   p_dataMoments16 :=
                     (if data_word_size md0 = 8
                      then dataMoments16 b' else resize (mIndex b') 0 (dataMoments16 b')),
                   warnings := warnings p @ logged b',
                   signals := signals p @ [SweepComputed]\<rparr>))))"
  using assms(1,3,4,5)
  by (simp add: ComputeSweep_def Let_def assms(2) sweep_env_of_def initial_buffers_def
        cong: option.case_cong sum.case_cong if_cong split del: if_split)

lemma ComputeSweep_no_volume:
  assumes "p_dataBlockType p \<noteq> Unknown"
    and "GetLevel2Data mgr (p_dataBlockType p) 0 = radarData"
    and "radarData \<noteq> []"
    and "moment_data_block (radarData ! 0) (p_dataBlockType p) = Some md0"
    and "volume_data_block (radarData ! 0) = None"
  shows "ComputeSweep fp c mgr p = Some (Inl NullPointer)"
  using assms(1,3,4,5)
  by (simp add: ComputeSweep_def Let_def assms(2))

lemma ComputeSweep_eq:
  assumes "p_dataBlockType p \<noteq> Unknown"
    and "GetLevel2Data mgr (p_dataBlockType p) 0 = radarData"
    and "radarData \<noteq> []"
    and "moment_data_block (radarData ! 0) (p_dataBlockType p) = Some md0"
    and "volume_data_block (radarData ! 0) = Some vol"
    and "length radarData \<le> 65535"
  shows "ComputeSweep fp c mgr p =
         Some (case sweep_emit c (sweep_env_of fp mgr (p_dataBlockType p) md0 vol) of
                 Inl err \<Rightarrow> Inl err
               | Inr out \<Rightarrow> Inr (publish fp p md0 vol (radarData ! 0) out))"
proof -
  let ?e = "sweep_env_of fp mgr (p_dataBlockType p) md0 vol"
  let ?n = "length radarData"
  let ?g = "number_of_data_moment_gates md0"
  let ?w8 = "data_word_size md0 = 8"
  let ?b0 = "initial_buffers fp p md0 ?n"
  have rad: "radials ?e = ?n" and g: "gates ?e = ?g" and md: "e_momentData0 ?e = md0"
    by (simp_all add: radials_def gates_def sweep_env_of_def Let_def assms(2))
  have room: "has_room ?e ?b0 (radials ?e - 0)"
    by (simp add: has_room_def rad g md VERTICES_PER_BIN_def VALUES_PER_VERTEX_def
          length_resize initial_buffers_def)
  have le: "radials ?e \<le> 65535" using assms(6) rad by simp
  have loop: "radial_loop c ?e ?b0 0 =
              Some (case sweep_emit c ?e of
                      Inl err \<Rightarrow> Inl err
                    | Inr out \<Rightarrow> Inr (put ?w8 ?b0 out))"
  proof -
    have "radial_loop c ?e ?b0 (of_nat 0) =
          Some (case collect (map (\<lambda>j. radial_emit c ?e (of_nat j)) [0..<radials ?e]) of
                  Inl err \<Rightarrow> Inl err
                | Inr out \<Rightarrow> Inr (put (data_word_size (e_momentData0 ?e) = 8) ?b0 out))"
      by (rule radial_loop_eq [OF le _ room]) simp
    moreover have "(of_nat 0 :: u16) = 0" by simp
    ultimately show ?thesis unfolding md sweep_emit_def by (simp only:)
  qed
  note unf = ComputeSweep_unfold [OF assms(1-5), where c = c and fp = fp]
  show ?thesis
  proof (cases "sweep_emit c ?e")
    case (Inl err)
    with loop unf show ?thesis by simp
  next
    case (Inr out)
    obtain vs ms ws where out: "out = (vs, ms, ws)" by (cases out) auto
    have fin: "resize (length vs) (f_of_int fp 0) (overwrite (replicate (?n * unat ?g * VERTICES_PER_BIN * VALUES_PER_VERTEX) (f_of_int fp 0)) 0 vs) = vs"
      by (rule resize_overwrite_0)
    have fin8: "resize (length ms) 0 (overwrite (resize (?n * unat ?g * VERTICES_PER_BIN) 0 (p_dataMoments8 p)) 0 (map ucast ms)) = (map ucast ms :: u8 list)"
      using resize_overwrite_0 [of "map ucast ms :: u8 list"] by simp
    have fin16: "resize (length ms) 0 (overwrite (resize (?n * unat ?g * VERTICES_PER_BIN) 0 (p_dataMoments16 p)) 0 ms) = ms"
      by (rule resize_overwrite_0)
    from loop Inr out have "radial_loop c ?e ?b0 0 = Some (Inr (put ?w8 ?b0 (vs, ms, ws)))" by simp
    with unf Inr out fin fin8 fin16 show ?thesis
      by (simp add: publish_def put_def initial_buffers_def)
  qed
qed

lemma ComputeSweep_returns:
  assumes "ComputeSweep fp c mgr p = Some (Inr p')"
    and "p_dataBlockType p \<noteq> Unknown"
    and "GetLevel2Data mgr (p_dataBlockType p) 0 = radarData"
    and "radarData \<noteq> []"
    and "moment_data_block (radarData ! 0) (p_dataBlockType p) = Some md0"
  obtains vol out where "volume_data_block (radarData ! 0) = Some vol"
    and "length radarData \<le> 65535"
    and "sweep_emit c (sweep_env_of fp mgr (p_dataBlockType p) md0 vol) = Inr out"
    and "p' = publish fp p md0 vol (radarData ! 0) out"
proof -
  obtain vol where vol: "volume_data_block (radarData ! 0) = Some vol"
    using ComputeSweep_no_volume [OF assms(2-5), where c = c and fp = fp] assms(1)
    by (cases "volume_data_block (radarData ! 0)") auto
  let ?e = "sweep_env_of fp mgr (p_dataBlockType p) md0 vol"
  from ComputeSweep_unfold [OF assms(2-5) vol, where c = c and fp = fp] assms(1)
  obtain b' where "radial_loop c ?e (initial_buffers fp p md0 (length radarData)) 0 = Some (Inr b')"
    by (auto split: option.splits sum.splits)
  then have "radials ?e \<le> 65535" by (rule radial_loop_no_return)
  then have le: "length radarData \<le> 65535"
    by (simp add: radials_def sweep_env_of_def Let_def assms(3))
  from ComputeSweep_eq [OF assms(2-5) vol le, where c = c and fp = fp] assms(1)
  obtain out where "sweep_emit c ?e = Inr out" "p' = publish fp p md0 vol (radarData ! 0) out"
    by (auto split: sum.splits)
  with vol le that show thesis by blast
qed

subsection \<open>Properties of the emissions\<close>

lemma emission_projections:
  "vertices_of (Inr (vs, ms, ws)) = vs"
  "values_of (Inr (vs, ms, ws)) = ms"
  "warnings_of (Inr (vs, ms, ws)) = ws"
  "vertices_of (Inl err) = []"
  "values_of (Inl err) = []"
  "warnings_of (Inl err) = []"
  by (simp_all add: vertices_of_def values_of_def warnings_of_def)

lemma collect_Inr:
  assumes "\<And>x. x \<in> set xs \<Longrightarrow> \<exists>out. x = Inr out"
  shows "collect xs = Inr (concat (map vertices_of xs), concat (map values_of xs),
                           concat (map warnings_of xs))"
  using assms
proof (induction xs rule: collect.induct)
  case 1
  show ?case by simp
next
  case (2 err rest)
  from 2(1) [of "Inl err"] show ?case by simp
next
  case (3 vs ms ws rest)
  have "collect rest = Inr (concat (map vertices_of rest), concat (map values_of rest),
                            concat (map warnings_of rest))"
    using 3 by simp
  then show ?case by (simp add: emission_projections)
qed

lemma collect_Inr_all:
  "collect xs = Inr out \<Longrightarrow> x \<in> set xs \<Longrightarrow> \<exists>out'. x = Inr out'"
proof (induction xs arbitrary: out rule: collect.induct)
  case 1
  then show ?case by simp
next
  case (2 err rest)
  then show ?case by simp
next
  case (3 vs ms ws rest)
  then show ?case by (auto split: sum.splits)
qed

lemma collect_Inr_eq:
  assumes "collect xs = Inr out"
  shows "out = (concat (map vertices_of xs), concat (map values_of xs), concat (map warnings_of xs))"
proof -
  have "\<And>x. x \<in> set xs \<Longrightarrow> \<exists>out. x = Inr out"
    using assms by (rule collect_Inr_all)
  from collect_Inr [OF this] assms show ?thesis by simp
qed

lemma collect_first_error:
  assumes "\<And>x. x \<in> set pre \<Longrightarrow> \<exists>out. x = Inr out"
  shows "collect (pre @ Inl err # post) = Inl err"
  using assms
proof (induction pre rule: collect.induct)
  case 1
  show ?case by simp
next
  case (2 err' rest)
  from 2(1) [of "Inl err'"] show ?case by simp
next
  case (3 vs ms ws rest)
  then have "collect (rest @ Inl err # post) = Inl err" by simp
  then show ?case by simp
qed

lemma collect_some_error:
  assumes "Inl err \<in> set xs"
  shows "\<exists>err'. collect xs = Inl err'"
proof (cases "collect xs")
  case (Inl a)
  then show ?thesis by blast
next
  case (Inr out)
  from collect_Inr_all [OF Inr assms] show ?thesis by simp
qed

lemma bin_emit_values:
  assumes "bin_emit c e radial md gi = Inr (vs, ms, ws)" and "m \<in> set ms"
  shows "unat (e_snrThreshold e) \<le> unat m" and "data_word_size md = 8 \<Longrightarrow> unat m < 256"
proof -
  obtain gate i where gi: "gi = (gate, i)" by (cases gi) auto
  from assms gi obtain s where s: "sample_at md i = Inr s"
    and m: "m = bin_sample md s" and ge: "\<not> unat (bin_sample md s) < unat (e_snrThreshold e)"
    by (auto simp add: bin_emit_def split: sum.splits if_splits)
  from m ge show "unat (e_snrThreshold e) \<le> unat m" by simp
  show "unat m < 256" if "data_word_size md = 8"
    using that m unat_u8_bound [of "ucast s"] by (simp add: bin_sample_def unat_ucast_u8)
qed

lemma radial_emit_values:
  assumes "radial_emit c e radial = Inr (vs, ms, ws)" and "m \<in> set ms"
  shows "unat (e_snrThreshold e) \<le> unat m"
    and "data_word_size (e_momentData0 e) = 8 \<Longrightarrow> unat m < 256"
proof -
  from assms(1) obtain md where md: "moment_data_block (e_radarData e ! unat radial) (e_dataBlockType e) = Some md"
    by (auto simp add: radial_emit_def split: option.splits)
  have same: "data_word_size (e_momentData0 e) = data_word_size md"
    using assms md by (auto simp add: radial_emit_def split: if_splits)
  let ?xs = "map (bin_emit c e radial md) (gate_bins c e md (startGate_of md) 0)"
  from assms(1) md same have col: "collect ?xs = Inr (vs, ms, ws)"
    by (simp add: radial_emit_def)
  from collect_Inr_eq [OF col] have "ms = concat (map values_of ?xs)" by simp
  with assms(2) obtain x where x: "x \<in> set ?xs" and mx: "m \<in> set (values_of x)" by auto
  from x obtain gi where xgi: "x = bin_emit c e radial md gi" by auto
  from collect_Inr_all [OF col x] obtain v' m' w' where o: "x = Inr (v', m', w')"
    by (metis prod_cases3)
  from mx o have "m \<in> set m'" by (simp add: emission_projections)
  from bin_emit_values [OF o [unfolded xgi] this] same
  show "unat (e_snrThreshold e) \<le> unat m"
    and "data_word_size (e_momentData0 e) = 8 \<Longrightarrow> unat m < 256" by simp_all
qed

lemma sweep_emit_values:
  assumes "sweep_emit c e = Inr (vs, ms, ws)" and "m \<in> set ms"
  shows "unat (e_snrThreshold e) \<le> unat m"
    and "data_word_size (e_momentData0 e) = 8 \<Longrightarrow> unat m < 256"
proof -
  let ?xs = "map (\<lambda>k. radial_emit c e (of_nat k)) [0..<radials e]"
  from assms(1) have col: "collect ?xs = Inr (vs, ms, ws)" by (simp add: sweep_emit_def)
  from collect_Inr_eq [OF col] have "ms = concat (map values_of ?xs)" by simp
  with assms(2) obtain x where x: "x \<in> set ?xs" and mx: "m \<in> set (values_of x)" by auto
  from x obtain k where xk: "x = radial_emit c e (of_nat k)" by auto
  from collect_Inr_all [OF col x] obtain v' m' w' where o: "x = Inr (v', m', w')"
    by (metis prod_cases3)
  from mx o have "m \<in> set m'" by (simp add: emission_projections)
  from radial_emit_values [OF o [unfolded xk] this]
  show "unat (e_snrThreshold e) \<le> unat m"
    and "data_word_size (e_momentData0 e) = 8 \<Longrightarrow> unat m < 256" by simp_all
qed

lemma sweep_emit_bounded: "bounded_emission (sweep_emit c e) (unat (gates e) * radials e)"
proof -
  let ?xs = "map (\<lambda>k. radial_emit c e (of_nat k)) [0..<radials e]"
  have "bounded_emission (collect ?xs) (unat (gates e) * length ?xs)"
  proof (rule collect_bounded)
    fix x assume "x \<in> set ?xs"
    then obtain j where "x = radial_emit c e (of_nat j)" by auto
    then show "bounded_emission x (unat (gates e))" by (simp only: radial_emit_bounded)
  qed
  then show ?thesis by (simp add: sweep_emit_def)
qed

lemma UpdateColorTable_buffers:
  "p_vertices (UpdateColorTable fp p) = p_vertices p"
  "p_dataMoments8 (UpdateColorTable fp p) = p_dataMoments8 p"
  "p_dataMoments16 (UpdateColorTable fp p) = p_dataMoments16 p"
  "warnings (UpdateColorTable fp p) = warnings p"
  by (simp_all add: UpdateColorTable_def Let_def case_prod_beta split: option.splits)

lemma publish_buffers:
  "p_vertices (publish fp p md0 vol rd0 (vs, ms, ws)) = vs"
  "p_dataMoments8 (publish fp p md0 vol rd0 (vs, ms, ws)) = (if data_word_size md0 = 8 then map ucast ms else [])"
  "p_dataMoments16 (publish fp p md0 vol rd0 (vs, ms, ws)) = (if data_word_size md0 = 8 then [] else ms)"
  "warnings (publish fp p md0 vol rd0 (vs, ms, ws)) = warnings p @ ws"
  by (simp_all add: publish_def UpdateColorTable_buffers)

lemma sweep_env_of_simps:
  "e_momentData0 (sweep_env_of fp mgr t md0 vol) = md0"
  "e_radarData (sweep_env_of fp mgr t md0 vol) = GetLevel2Data mgr t 0"
  "e_dataBlockType (sweep_env_of fp mgr t md0 vol) = t"
  "e_latitude (sweep_env_of fp mgr t md0 vol) = latitude vol"
  "e_longitude (sweep_env_of fp mgr t md0 vol) = longitude vol"
  "e_snrThreshold (sweep_env_of fp mgr t md0 vol) =
     of_int (f_lroundf fp (f_add fp (f_div fp (f_mul fp (f_of_int fp (snr_threshold_raw md0)) (scale md0)) (f_of_int fp 10)) (offset md0)))"
  "gates (sweep_env_of fp mgr t md0 vol) = number_of_data_moment_gates md0"
  "radials (sweep_env_of fp mgr t md0 vol) = length (GetLevel2Data mgr t 0)"
  by (simp_all add: sweep_env_of_def Let_def gates_def radials_def)

subsection \<open>The published sweep\<close>

lemma unat_ucast_small: "unat (m :: u16) < 256 \<Longrightarrow> unat (ucast m :: u8) = unat m"
  by (simp add: unsigned_ucast_eq take_bit_nat_eq_self)


lemma ex_view0_type: "p_dataBlockType ex_view0 = MomentRef"
  by (simp add: ex_view0_def Level2ProductViewImpl_new_def blockTypes_def)

lemma ex_run:
  assumes "rs ! 0 = ex_radial az (Some md0)" and "rs \<noteq> []" and "length rs \<le> 65535"
    and "sweep_emit c (sweep_env_of ex_float_ops (ex_manager rs tbl) MomentRef md0 ex_volume) = Inr out"
  shows "ComputeSweep ex_float_ops c (ex_manager rs tbl) ex_view0 = Some (Inr (publish ex_float_ops ex_view0 md0 ex_volume (rs ! 0) out))"
    and "p_dataBlockType ex_view0 \<noteq> Unknown"
    and "GetLevel2Data (ex_manager rs tbl) (p_dataBlockType ex_view0) 0 = rs"
    and "moment_data_block (rs ! 0) (p_dataBlockType ex_view0) = Some md0"
proof -
  show t: "p_dataBlockType ex_view0 \<noteq> Unknown" by (simp add: ex_view0_type)
  show g: "GetLevel2Data (ex_manager rs tbl) (p_dataBlockType ex_view0) 0 = rs"
    by (simp add: ex_manager_def)
  show b0: "moment_data_block (rs ! 0) (p_dataBlockType ex_view0) = Some md0"
    by (simp add: assms(1) ex_radial_def ex_view0_type)
  have v0: "volume_data_block (rs ! 0) = Some ex_volume"
    by (simp add: assms(1) ex_radial_def)
  from ComputeSweep_eq [OF t g assms(2) b0 v0 assms(3), where c = c and fp = ex_float_ops] assms(4)
  show "ComputeSweep ex_float_ops c (ex_manager rs tbl) ex_view0 = Some (Inr (publish ex_float_ops ex_view0 md0 ex_volume (rs ! 0) out))"
    by (simp add: ex_view0_type)
qed


lemma published_lengths:
  assumes "ComputeSweep fp c mgr p = Some (Inr p')"
    and "p_dataBlockType p \<noteq> Unknown"
    and "GetLevel2Data mgr (p_dataBlockType p) 0 = radarData"
    and "radarData \<noteq> []"
    and "moment_data_block (radarData ! 0) (p_dataBlockType p) = Some md0"
  shows "2 dvd length (p_vertices p')
       \<and> length (p_vertices p') \<le> length radarData * unat (number_of_data_moment_gates md0) * 6 * 2
       \<and> (if data_word_size md0 = 8
          then length (p_dataMoments8 p') = length (p_vertices p') div 2 \<and> p_dataMoments16 p' = []
          else length (p_dataMoments16 p') = length (p_vertices p') div 2 \<and> p_dataMoments8 p' = [])"
proof -
  from ComputeSweep_returns [OF assms]
  obtain vol out where le: "length radarData \<le> 65535"
    and emit: "sweep_emit c (sweep_env_of fp mgr (p_dataBlockType p) md0 vol) = Inr out"
    and p': "p' = publish fp p md0 vol (radarData ! 0) out" by blast
  obtain vs ms ws where out: "out = (vs, ms, ws)" by (cases out) auto
  let ?e = "sweep_env_of fp mgr (p_dataBlockType p) md0 vol"
  from sweep_emit_bounded [of c ?e] emit out
  have l: "length vs = 2 * length ms"
    and b: "length ms \<le> 6 * (unat (number_of_data_moment_gates md0) * length radarData)"
    by (simp_all add: bounded_emission_def sweep_env_of_simps assms(3))
  from l b have "length vs \<le> length radarData * unat (number_of_data_moment_gates md0) * 6 * 2"
    by (simp add: mult.commute)
  with l show ?thesis
    by (simp add: p' out publish_buffers)
qed

text \<open>
  Claim C3. After every run of \<open>ComputeSweep\<close> that publishes a sweep (the product is
  mapped, there are radials, the first radial has its moment block, and the run
  returns), the length of the vertex buffer is a multiple of 2 and at most
  \<open>radials * gates * 6 * 2\<close>, and the raw-value buffer of the sweep's word size has
  exactly half the length of the vertex buffer; the other raw-value buffer is empty.
\<close>

theorem ComputeSweep_buffer_lengths:
  assumes "ComputeSweep fp c mgr p = Some (Inr p')"
    and "p_dataBlockType p \<noteq> Unknown"
    and "GetLevel2Data mgr (p_dataBlockType p) 0 = radarData"
    and "radarData \<noteq> []"
    and "moment_data_block (radarData ! 0) (p_dataBlockType p) = Some md0"
  shows "2 dvd length (p_vertices p')
       \<and> length (p_vertices p') \<le> length radarData * unat (number_of_data_moment_gates md0) * 6 * 2
       \<and> (if data_word_size md0 = 8
          then length (p_dataMoments8 p') = length (p_vertices p') div 2 \<and> p_dataMoments16 p' = []
          else length (p_dataMoments16 p') = length (p_vertices p') div 2 \<and> p_dataMoments8 p' = [])"
  using assms by (rule published_lengths)

theorem ComputeSweep_buffer_lengths_witness:
  "\<exists>p'. ComputeSweep ex_float_ops ex_constants (ex_manager ex_mixed ex_coordinates) ex_view0 = Some (Inr p')
       \<and> length (p_vertices p') = 6
       \<and> 2 dvd length (p_vertices p')
       \<and> length (p_vertices p') \<le> length ex_mixed * unat (number_of_data_moment_gates (ex_block 8 10 [100, 50])) * 6 * 2
       \<and> length (p_dataMoments8 p') = length (p_vertices p') div 2
       \<and> p_dataMoments16 p' = []"
proof -
  let ?mgr = "ex_manager ex_mixed ex_coordinates"
  let ?md0 = "ex_block 8 10 [100, 50]"
  let ?e = "sweep_env_of ex_float_ops ?mgr MomentRef ?md0 ex_volume"
  have t: "p_dataBlockType ex_view0 \<noteq> Unknown" and t': "p_dataBlockType ex_view0 = MomentRef"
    by (simp_all add: ex_view0_def Level2ProductViewImpl_new_def blockTypes_def)
  have rs: "GetLevel2Data ?mgr (p_dataBlockType ex_view0) 0 = ex_mixed"
    by (simp add: ex_manager_def)
  have ne: "ex_mixed \<noteq> []" by (simp add: ex_mixed_def)
  have b0: "moment_data_block (ex_mixed ! 0) (p_dataBlockType ex_view0) = Some ?md0"
    by (simp add: ex_mixed_def ex_radial_def t')
  have v0: "volume_data_block (ex_mixed ! 0) = Some ex_volume"
    by (simp add: ex_mixed_def ex_radial_def)
  have le: "length ex_mixed \<le> 65535" by (simp add: ex_mixed_def)
  have emit: "sweep_emit ex_constants ?e = Inr ([35, - 97, 0, 1, 8, 9], [100, 100, 100], [DifferentWordSize 1])"
    by code_simp
  let ?p' = "publish ex_float_ops ex_view0 ?md0 ex_volume (ex_mixed ! 0) ([35, - 97, 0, 1, 8, 9], [100, 100, 100], [DifferentWordSize 1])"
  have run: "ComputeSweep ex_float_ops ex_constants ?mgr ex_view0 = Some (Inr ?p')"
    using ComputeSweep_eq [OF t rs ne b0 v0 le, where c = ex_constants and fp = ex_float_ops] emit by (simp add: t')
  have w8: "data_word_size ?md0 = 8" by (simp add: ex_block_def)
  have len: "length (p_vertices ?p') = 6" by (simp add: publish_buffers)
  from ComputeSweep_buffer_lengths [OF run t rs ne b0] w8 len run show ?thesis
    by (intro exI [of _ ?p']) simp
qed


lemma gate_body_suppressed:
  assumes "sample_at md i = Inr s" and "unat (bin_sample md s) < unat (e_snrThreshold e)"
  shows "gate_body c e radial md b gate i = Inr b"
proof (cases "data_word_size md = 8")
  case True
  then have "unat (bin_sample md s) = unat (ucast s :: u8)"
    by (simp add: bin_sample_def unat_ucast_u8)
  with assms True show ?thesis by (simp add: gate_body_def Let_def)
next
  case False
  then have "bin_sample md s = s" by (simp add: bin_sample_def)
  with assms False show ?thesis by (simp add: gate_body_def Let_def)
qed

lemma published_values:
  assumes "ComputeSweep fp c mgr p = Some (Inr p')"
    and "p_dataBlockType p \<noteq> Unknown"
    and "GetLevel2Data mgr (p_dataBlockType p) 0 = radarData"
    and "radarData \<noteq> []"
    and "moment_data_block (radarData ! 0) (p_dataBlockType p) = Some md0"
    and "snrThreshold = (of_int (f_lroundf fp (f_add fp (f_div fp (f_mul fp (f_of_int fp (snr_threshold_raw md0)) (scale md0)) (f_of_int fp 10)) (offset md0))) :: u16)"
  shows "\<And>v. v \<in> set (p_dataMoments8 p') \<Longrightarrow> unat snrThreshold \<le> unat v"
    and "\<And>v. v \<in> set (p_dataMoments16 p') \<Longrightarrow> unat snrThreshold \<le> unat v"
proof -
  from ComputeSweep_returns [OF assms(1-5)]
  obtain vol out where emit: "sweep_emit c (sweep_env_of fp mgr (p_dataBlockType p) md0 vol) = Inr out"
    and p': "p' = publish fp p md0 vol (radarData ! 0) out" by blast
  obtain vs ms ws where out: "out = (vs, ms, ws)" by (cases out) auto
  let ?e = "sweep_env_of fp mgr (p_dataBlockType p) md0 vol"
  have thr: "e_snrThreshold ?e = snrThreshold" by (simp add: sweep_env_of_simps assms(6))
  have ms: "unat snrThreshold \<le> unat m" "data_word_size md0 = 8 \<Longrightarrow> unat m < 256"
    if "m \<in> set ms" for m
    using sweep_emit_values [OF emit [unfolded out] that] thr by (simp_all add: sweep_env_of_simps)
  show "unat snrThreshold \<le> unat v" if v: "v \<in> set (p_dataMoments8 p')" for v
  proof (cases "data_word_size md0 = 8")
    case True
    with v obtain m where m: "m \<in> set ms" and vm: "v = ucast m"
      by (auto simp add: p' out publish_buffers)
    from ms(2) [OF m True] have "unat v = unat m" unfolding vm by (rule unat_ucast_small)
    with ms(1) [OF m] show ?thesis by simp
  next
    case False
    with v show ?thesis by (simp add: p' out publish_buffers)
  qed
  show "unat snrThreshold \<le> unat v" if v: "v \<in> set (p_dataMoments16 p')" for v
  proof (cases "data_word_size md0 = 8")
    case True
    with v show ?thesis by (simp add: p' out publish_buffers)
  next
    case False
    with v have "v \<in> set ms" by (simp add: p' out publish_buffers)
    then show ?thesis by (rule ms(1))
  qed
qed

text \<open>
  Claim C1, as the code has it. The threshold is computed once, as
  \<open>lroundf (snr * scale / 10 + offset)\<close> in the float arithmetic of the source from the
  moment block of the first radial, and stored in 16 bits. Every raw value of a
  published sweep is at least that threshold, whatever radial it comes from, and a bin
  whose sample is below it leaves the buffers as they are.
\<close>

theorem emitted_values_reach_threshold:
  assumes "ComputeSweep fp c mgr p = Some (Inr p')"
    and "p_dataBlockType p \<noteq> Unknown"
    and "GetLevel2Data mgr (p_dataBlockType p) 0 = radarData"
    and "radarData \<noteq> []"
    and "moment_data_block (radarData ! 0) (p_dataBlockType p) = Some md0"
    and "snrThreshold = (of_int (f_lroundf fp (f_add fp (f_div fp (f_mul fp (f_of_int fp (snr_threshold_raw md0)) (scale md0)) (f_of_int fp 10)) (offset md0))) :: u16)"
  shows "(\<forall>v \<in> set (p_dataMoments8 p'). unat snrThreshold \<le> unat v)
       \<and> (\<forall>v \<in> set (p_dataMoments16 p'). unat snrThreshold \<le> unat v)
       \<and> (\<forall>e radial md b gate i s.
             e_snrThreshold e = snrThreshold \<and> sample_at md i = Inr s
             \<and> unat (bin_sample md s) < unat snrThreshold
             \<longrightarrow> gate_body c e radial md b gate i = Inr b)"
  using published_values [OF assms] gate_body_suppressed by auto

theorem emitted_values_reach_threshold_witness:
  "\<exists>p'. ComputeSweep ex_float_ops ex_constants (ex_manager ex_two_thresholds ex_coordinates) ex_view0 = Some (Inr p')
       \<and> p_dataMoments8 p' = [100, 100, 100, 80, 80, 80]
       \<and> (\<forall>v \<in> set (p_dataMoments8 p'). unat (68 :: u16) \<le> unat v)
       \<and> (\<forall>v \<in> set (p_dataMoments16 p'). unat (68 :: u16) \<le> unat v)"
proof -
  let ?md0 = "ex_block 8 10 [100]"
  let ?out = "([35, - 97, 0, 1, 8, 9, 35, - 97, 8, 9, 16, 17], [100, 100, 100, 80, 80, 80], [])
              :: real emission"
  have first: "ex_two_thresholds ! 0 = ex_radial 0 (Some ?md0)"
    and ne: "ex_two_thresholds \<noteq> []" and le: "length ex_two_thresholds \<le> 65535"
    by (simp_all add: ex_two_thresholds_def)
  have emit: "sweep_emit ex_constants
                (sweep_env_of ex_float_ops (ex_manager ex_two_thresholds ex_coordinates) MomentRef ?md0 ex_volume)
              = Inr ?out"
    by code_simp
  note run = ex_run [OF first ne le emit]
  have thr: "(68 :: u16) = of_int (f_lroundf ex_float_ops (f_add ex_float_ops (f_div ex_float_ops (f_mul ex_float_ops (f_of_int ex_float_ops (snr_threshold_raw ?md0)) (scale ?md0)) (f_of_int ex_float_ops 10)) (offset ?md0)))"
    by (simp add: ex_block_def round_half_away_def ex_float_ops_def)
  have w8: "data_word_size ?md0 = 8" by (simp add: ex_block_def)
  have "p_dataMoments8 (publish ex_float_ops ex_view0 ?md0 ex_volume (ex_two_thresholds ! 0) ?out)
        = [100, 100, 100, 80, 80, 80]"
    by (simp add: publish_buffers w8)
  with emitted_values_reach_threshold [OF run(1,2,3) ne run(4) thr] run(1) show ?thesis
    by blast
qed


text \<open>
  The claim C1 as it is written compares with the threshold of the radial the value
  comes from. Two radials, both with offset 66 and scale 2: the first has
  \<open>snr_threshold_raw = 10\<close> (threshold 68), the second 170 (threshold 100). The sample
  80 of the second radial is emitted, three times for its bin at the origin, though
  it is below 100.
\<close>

theorem threshold_of_own_radial_counterexample:
  "map_option (map_sum id p_dataMoments8)
     (ComputeSweep ex_float_ops ex_constants (ex_manager ex_two_thresholds ex_coordinates) ex_view0)
     = Some (Inr [100, 100, 100, 80, 80, 80])
   \<and> values_of (radial_emit ex_constants
        (sweep_env_of ex_float_ops (ex_manager ex_two_thresholds ex_coordinates) MomentRef (ex_block 8 10 [100]) ex_volume) 1)
     = [80, 80, 80]
   \<and> moment_data_block (ex_two_thresholds ! 1) MomentRef = Some (ex_block 8 170 [80])
   \<and> f_lroundf ex_float_ops (f_add ex_float_ops (f_div ex_float_ops (f_mul ex_float_ops (f_of_int ex_float_ops (snr_threshold_raw (ex_block 8 170 [80]))) (scale (ex_block 8 170 [80]))) (f_of_int ex_float_ops 10)) (offset (ex_block 8 170 [80]))) = 100
   \<and> uint (80 :: u16) < f_lroundf ex_float_ops (f_add ex_float_ops (f_div ex_float_ops (f_mul ex_float_ops (f_of_int ex_float_ops (snr_threshold_raw (ex_block 8 170 [80]))) (scale (ex_block 8 170 [80]))) (f_of_int ex_float_ops 10)) (offset (ex_block 8 170 [80])))"
proof -
  have a: "map_option (map_sum id p_dataMoments8)
     (ComputeSweep ex_float_ops ex_constants (ex_manager ex_two_thresholds ex_coordinates) ex_view0)
     = Some (Inr [100, 100, 100, 80, 80, 80])"
    by code_simp
  have b: "values_of (radial_emit ex_constants
        (sweep_env_of ex_float_ops (ex_manager ex_two_thresholds ex_coordinates) MomentRef (ex_block 8 10 [100]) ex_volume) 1)
     = [80, 80, 80]"
    by code_simp
  have c: "moment_data_block (ex_two_thresholds ! 1) MomentRef = Some (ex_block 8 170 [80])"
    by (simp add: ex_two_thresholds_def ex_radial_def)
  have d: "f_lroundf ex_float_ops (f_add ex_float_ops (f_div ex_float_ops (f_mul ex_float_ops (f_of_int ex_float_ops (snr_threshold_raw (ex_block 8 170 [80]))) (scale (ex_block 8 170 [80]))) (f_of_int ex_float_ops 10)) (offset (ex_block 8 170 [80]))) = 100"
    by (simp add: ex_block_def round_half_away_def ex_float_ops_def)
  from a b c d show ?thesis by simp
qed

subsection \<open>The threshold in 16 bits\<close>

lemma unat_wrapped_negative:
  assumes "- 65536 < L" "L < 0"
  shows "unat (of_int L :: u16) = nat (65536 + L)"
proof -
  have "uint (of_int L :: u16) = L mod 65536" by (simp add: uint_word_of_int)
  also have "\<dots> = (65536 + L) mod 65536" by simp
  also have "\<dots> = 65536 + L" using assms by (simp only: mod_pos_pos_trivial)
  finally have "uint (of_int L :: u16) = 65536 + L" .
  then show ?thesis by (simp only: unat_eq_nat_uint)
qed


text \<open>
  Claim C9, as the code has it. The threshold \<open>L = lroundf (snr * scale / 10 + offset)\<close>
  of the first radial, computed in the float arithmetic of the source, is stored in a
  \<^verbatim>\<open>uint16_t\<close>, that is modulo \<open>2 ^ 16\<close>. For
  \<open>- 65536 < L < 0\<close> the stored threshold is \<open>65536 + L\<close>: every raw value of the
  published sweep is at least \<open>65536 + L\<close>, a bin whose sample is below \<open>65536 + L\<close>
  leaves the buffers as they are, and for \<open>- 65280 \<le> L\<close> no 8-bit sample is emitted
  at all.
\<close>

theorem negative_threshold_wraps:
  assumes "ComputeSweep fp c mgr p = Some (Inr p')"
    and "p_dataBlockType p \<noteq> Unknown"
    and "GetLevel2Data mgr (p_dataBlockType p) 0 = radarData"
    and "radarData \<noteq> []"
    and "moment_data_block (radarData ! 0) (p_dataBlockType p) = Some md0"
    and "L = f_lroundf fp (f_add fp (f_div fp (f_mul fp (f_of_int fp (snr_threshold_raw md0)) (scale md0)) (f_of_int fp 10)) (offset md0))"
    and "- 65536 < L" and "L < 0"
  shows "unat (of_int L :: u16) = nat (65536 + L)
       \<and> (\<forall>v \<in> set (p_dataMoments16 p'). 65536 + L \<le> uint v)
       \<and> (\<forall>v \<in> set (p_dataMoments8 p'). 65536 + L \<le> uint v)
       \<and> (- 65280 \<le> L \<longrightarrow> p_dataMoments8 p' = []
            \<and> (data_word_size md0 = 8 \<longrightarrow> p_vertices p' = []))
       \<and> (\<forall>e radial md b gate i s.
             e_snrThreshold e = of_int L \<and> sample_at md i = Inr s
             \<and> uint (bin_sample md s) < 65536 + L
             \<longrightarrow> gate_body c e radial md b gate i = Inr b)"
proof -
  let ?thr = "of_int L :: u16"
  have thr: "?thr = of_int (f_lroundf fp (f_add fp (f_div fp (f_mul fp (f_of_int fp (snr_threshold_raw md0)) (scale md0)) (f_of_int fp 10)) (offset md0)))"
    by (simp add: assms(6))
  note w = unat_wrapped_negative [OF assms(7,8)]
  note vals = published_values [OF assms(1-5) thr]
  have ge: "65536 + L \<le> uint v" if "unat ?thr \<le> unat v" for v :: "'w::len word"
  proof -
    from that w have "nat (65536 + L) \<le> unat v" by simp
    then have "int (nat (65536 + L)) \<le> int (unat v)" by (simp only: of_nat_le_iff)
    moreover have "int (nat (65536 + L)) = 65536 + L" using assms(7) by simp
    moreover have "int (unat v) = uint v" by simp
    ultimately show ?thesis by linarith
  qed
  have v16: "\<forall>v \<in> set (p_dataMoments16 p'). 65536 + L \<le> uint v"
    using vals(2) ge by blast
  have v8: "\<forall>v \<in> set (p_dataMoments8 p'). 65536 + L \<le> uint v"
    using vals(1) ge by blast
  have empty: "p_dataMoments8 p' = []" if "- 65280 \<le> L"
  proof (rule ccontr)
    assume "p_dataMoments8 p' \<noteq> []"
    then obtain v where v: "v \<in> set (p_dataMoments8 p')" by (cases "p_dataMoments8 p'") auto
    with v8 have "65536 + L \<le> uint v" by blast
    moreover have "int (unat v) = uint v" by simp
    moreover have "int (unat v) < 256" using unat_u8_bound [of v] by linarith
    ultimately show False using that by linarith
  qed
  have vempty: "p_vertices p' = []" if "- 65280 \<le> L" "data_word_size md0 = 8"
  proof -
    from published_lengths [OF assms(1-5)] that(2)
    have "2 dvd length (p_vertices p')"
      and "length (p_dataMoments8 p') = length (p_vertices p') div 2" by simp_all
    with empty [OF that(1)] have "length (p_vertices p') = 0" by auto
    then show ?thesis by simp
  qed
  have supp: "gate_body c e radial md b gate i = Inr b"
    if "e_snrThreshold e = of_int L" "sample_at md i = Inr s" "uint (bin_sample md s) < 65536 + L"
    for e radial md b gate i s
  proof -
    have "int (unat (bin_sample md s)) = uint (bin_sample md s)" by simp
    with that(3) have "int (unat (bin_sample md s)) < 65536 + L" by linarith
    moreover have "int (nat (65536 + L)) = 65536 + L" using assms(7) by simp
    ultimately have "int (unat (bin_sample md s)) < int (nat (65536 + L))" by linarith
    then have "unat (bin_sample md s) < nat (65536 + L)" by (simp only: of_nat_less_iff)
    with w have "unat (bin_sample md s) < unat (e_snrThreshold e)"
      by (simp only: that(1))
    with that(2) show ?thesis by (rule gate_body_suppressed)
  qed
  from w v16 v8 empty vempty supp show ?thesis by blast
qed



text \<open>Rules to run the emission functions on the example inputs.\<close>

lemma replicate_vertexCount:
  "replicate 3 x = [x, x, x]" "replicate 6 x = [x, x, x, x, x, x]"
  by (simp_all add: numeral_3_eq_3 eval_nat_numeral)

lemmas sweep_eval = replicate_vertexCount
  sweep_emit_def radials_def gates_def sweep_env_of_def radial_emit_def gate_bins.simps
  bin_emit_def bin_sample_def sample_at_def bin_vertices_def quad_offsets_def origin_offsets_def
  gateSize_of_def startGate_of_def endGate_of_def c_div_def round_half_away_def ex_float_ops_def clamp_int8_def
  ex_manager_def ex_radial_def ex_block_def ex_volume_def ex_constants_def ex_coordinates_def
  Let_def

theorem negative_threshold_wraps_witness:
  "\<exists>p'. ComputeSweep ex_float_ops ex_constants (ex_manager ex_negative ex_coordinates) ex_view0 = Some (Inr p')
       \<and> f_lroundf ex_float_ops (f_add ex_float_ops (f_div ex_float_ops (f_mul ex_float_ops (f_of_int ex_float_ops (snr_threshold_raw (ex_block 8 (- 340) [100, 50]))) (scale (ex_block 8 (- 340) [100, 50]))) (f_of_int ex_float_ops 10)) (offset (ex_block 8 (- 340) [100, 50]))) = - 2
       \<and> unat (of_int (- 2) :: u16) = 65534
       \<and> p_dataMoments8 p' = []
       \<and> p_vertices p' = []"
proof -
  let ?md0 = "ex_block 8 (- 340) [100, 50]"
  have first: "ex_negative ! 0 = ex_radial 0 (Some ?md0)"
    and ne: "ex_negative \<noteq> []" and le: "length ex_negative \<le> 65535"
    by (simp_all add: ex_negative_def)
  have emit: "sweep_emit ex_constants
                (sweep_env_of ex_float_ops (ex_manager ex_negative ex_coordinates) MomentRef ?md0 ex_volume)
              = Inr ([], [], [])"
    by (simp add: sweep_eval ex_negative_def)
  note run = ex_run [OF first ne le emit]
  have L: "(- 2 :: int) = f_lroundf ex_float_ops (f_add ex_float_ops (f_div ex_float_ops (f_mul ex_float_ops (f_of_int ex_float_ops (snr_threshold_raw ?md0)) (scale ?md0)) (f_of_int ex_float_ops 10)) (offset ?md0))"
    by (simp add: ex_block_def round_half_away_def ex_float_ops_def)
  have w8: "data_word_size ?md0 = 8" by (simp add: ex_block_def)
  from negative_threshold_wraps [OF run(1,2,3) ne run(4) L] w8 L run(1) show ?thesis
    by auto
qed


text \<open>
  The claim C9 as it is written covers every negative threshold. For \<open>L = - 65536\<close>
  (no \<open>snr_threshold_raw\<close>, scale 1, offset \<open>- 65536\<close>) the stored threshold is 0 and
  the 8-bit sample 5 is emitted.
\<close>

theorem negative_threshold_wraps_to_zero_counterexample:
  "f_lroundf ex_float_ops (f_add ex_float_ops (f_div ex_float_ops (f_mul ex_float_ops (f_of_int ex_float_ops (snr_threshold_raw ex_wrap_block)) (scale ex_wrap_block)) (f_of_int ex_float_ops 10)) (offset ex_wrap_block)) = - 65536
   \<and> map_option (map_sum id (\<lambda>p. (p_vertices p, p_dataMoments8 p)))
       (ComputeSweep ex_float_ops ex_constants (ex_manager [ex_radial 0 (Some ex_wrap_block)] ex_coordinates) ex_view0)
     = Some (Inr ([35, - 97, 0, 1, 8, 9], [5, 5, 5]))"
proof -
  have a: "f_lroundf ex_float_ops (f_add ex_float_ops (f_div ex_float_ops (f_mul ex_float_ops (f_of_int ex_float_ops (snr_threshold_raw ex_wrap_block)) (scale ex_wrap_block)) (f_of_int ex_float_ops 10)) (offset ex_wrap_block)) = - 65536"
    by (simp add: ex_wrap_block_def ex_block_def round_half_away_def ex_float_ops_def)
  have b: "map_option (map_sum id (\<lambda>p. (p_vertices p, p_dataMoments8 p)))
       (ComputeSweep ex_float_ops ex_constants (ex_manager [ex_radial 0 (Some ex_wrap_block)] ex_coordinates) ex_view0)
     = Some (Inr ([35, - 97, 0, 1, 8, 9], [5, 5, 5]))"
    by code_simp
  from a b show ?thesis by simp
qed

subsection \<open>A radial without its moment block\<close>

lemma radial_emit_null:
  assumes "k < length (e_radarData e)" "length (e_radarData e) \<le> 65535"
    and "moment_data_block (e_radarData e ! k) (e_dataBlockType e) = None"
  shows "radial_emit c e (of_nat k) = Inl NullPointer"
proof -
  from assms(1,2) have "unat (of_nat k :: u16) = k" by (simp add: unat_of_nat_u16)
  with assms(3) show ?thesis by (simp add: radial_emit_def)
qed


text \<open>
  Claim C10. \<open>ComputeSweep\<close> checks the moment block of the first radial only. If the
  product is mapped, the first radial has its block, and a later radial \<open>k\<close> has none,
  then no run of \<open>ComputeSweep\<close> returns normally; with at most 65535 radials, and the
  radials before \<open>k\<close> processed without a fault, the run ends in the read through the
  null pointer.
\<close>

theorem missing_moment_block_fails:
  assumes "p_dataBlockType p \<noteq> Unknown"
    and "GetLevel2Data mgr (p_dataBlockType p) 0 = radarData"
    and "moment_data_block (radarData ! 0) (p_dataBlockType p) = Some md0"
    and "0 < k" and "k < length radarData"
    and "moment_data_block (radarData ! k) (p_dataBlockType p) = None"
  shows "(\<forall>p'. ComputeSweep fp c mgr p \<noteq> Some (Inr p'))
       \<and> (length radarData \<le> 65535
            \<and> (\<forall>vol. volume_data_block (radarData ! 0) = Some vol \<longrightarrow>
                  (\<forall>j<k. \<exists>out. radial_emit c (sweep_env_of fp mgr (p_dataBlockType p) md0 vol) (of_nat j)
                                  = Inr out))
            \<longrightarrow> ComputeSweep fp c mgr p = Some (Inl NullPointer))"
proof (intro conjI allI impI notI)
  from assms(5) have ne: "radarData \<noteq> []" by auto
  {
    fix p' assume run: "ComputeSweep fp c mgr p = Some (Inr p')"
    from ComputeSweep_returns [OF run assms(1,2) ne assms(3)]
    obtain vol out where le: "length radarData \<le> 65535"
      and emit: "sweep_emit c (sweep_env_of fp mgr (p_dataBlockType p) md0 vol) = Inr out" by blast
    let ?e = "sweep_env_of fp mgr (p_dataBlockType p) md0 vol"
    have "radial_emit c ?e (of_nat k) = Inl NullPointer"
      by (rule radial_emit_null) (simp_all add: sweep_env_of_simps assms(2,5,6) le)
    then have "Inl NullPointer \<in> set (map (\<lambda>j. radial_emit c ?e (of_nat j)) [0..<radials ?e])"
      using assms(5) by (auto simp add: sweep_env_of_simps assms(2) image_iff intro!: bexI [of _ k])
    from collect_some_error [OF this] emit show False by (simp add: sweep_emit_def)
  }
  {
    assume h: "length radarData \<le> 65535
            \<and> (\<forall>vol. volume_data_block (radarData ! 0) = Some vol \<longrightarrow>
                  (\<forall>j<k. \<exists>out. radial_emit c (sweep_env_of fp mgr (p_dataBlockType p) md0 vol) (of_nat j)
                                  = Inr out))"
    show "ComputeSweep fp c mgr p = Some (Inl NullPointer)"
    proof (cases "volume_data_block (radarData ! 0)")
      case None
      from ComputeSweep_no_volume [OF assms(1,2) ne assms(3) None] show ?thesis .
    next
      case (Some vol)
      let ?e = "sweep_env_of fp mgr (p_dataBlockType p) md0 vol"
      let ?f = "\<lambda>j. radial_emit c ?e (of_nat j)"
      from h have le: "length radarData \<le> 65535" by simp
      have null: "?f k = Inl NullPointer"
        by (rule radial_emit_null) (simp_all add: sweep_env_of_simps assms(2,5,6) le)
      have split: "[0..<length radarData] = [0..<k] @ k # [Suc k..<length radarData]"
        using assms(5) by (metis le0 upt_add_eq_append upt_conv_Cons le_add_diff_inverse less_imp_le_nat add_0)
      have pre: "\<And>x. x \<in> set (map ?f [0..<k]) \<Longrightarrow> \<exists>out. x = Inr out"
        using h Some by auto
      have "sweep_emit c ?e = collect (map ?f [0..<k] @ Inl NullPointer # map ?f [Suc k..<length radarData])"
        by (simp add: sweep_emit_def sweep_env_of_simps assms(2) split null)
      also have "\<dots> = Inl NullPointer" using pre by (rule collect_first_error)
      finally have "sweep_emit c ?e = Inl NullPointer" .
      with ComputeSweep_eq [OF assms(1,2) ne assms(3) Some le, where c = c and fp = fp] show ?thesis by simp
    qed
  }
qed

theorem missing_moment_block_fails_witness:
  "moment_data_block (ex_missing ! 1) MomentRef = None
   \<and> ComputeSweep ex_float_ops ex_constants (ex_manager ex_missing ex_coordinates) ex_view0 = Some (Inl NullPointer)
   \<and> (\<forall>p'. ComputeSweep ex_float_ops ex_constants (ex_manager ex_missing ex_coordinates) ex_view0 \<noteq> Some (Inr p'))"
proof -
  let ?mgr = "ex_manager ex_missing ex_coordinates"
  let ?md0 = "ex_block 8 10 [100, 50]"
  have t: "p_dataBlockType ex_view0 \<noteq> Unknown" by (simp add: ex_view0_type)
  have g: "GetLevel2Data ?mgr (p_dataBlockType ex_view0) 0 = ex_missing" by (simp add: ex_manager_def)
  have b0: "moment_data_block (ex_missing ! 0) (p_dataBlockType ex_view0) = Some ?md0"
    by (simp add: ex_missing_def ex_radial_def ex_view0_type)
  have k: "(0::nat) < 1" "1 < length ex_missing" by (simp_all add: ex_missing_def)
  have none: "moment_data_block (ex_missing ! 1) (p_dataBlockType ex_view0) = None"
    by (simp add: ex_missing_def ex_radial_def)
  have le: "length ex_missing \<le> 65535" by (simp add: ex_missing_def)
  have pre: "\<forall>vol. volume_data_block (ex_missing ! 0) = Some vol \<longrightarrow>
               (\<forall>j<1. \<exists>out. radial_emit ex_constants (sweep_env_of ex_float_ops ?mgr (p_dataBlockType ex_view0) ?md0 vol) (of_nat j)
                               = Inr out)"
  proof (intro allI impI)
    fix vol j assume "volume_data_block (ex_missing ! 0) = Some vol" and "j < (1::nat)"
    then have vol: "vol = ex_volume" and j: "j = 0" by (simp_all add: ex_missing_def ex_radial_def)
    have "radial_emit ex_constants (sweep_env_of ex_float_ops ?mgr MomentRef ?md0 ex_volume) 0
          = Inr ([35, - 97, 0, 1, 8, 9], [100, 100, 100], [])"
      by (simp add: sweep_eval ex_missing_def)
    then show "\<exists>out. radial_emit ex_constants (sweep_env_of ex_float_ops ?mgr (p_dataBlockType ex_view0) ?md0 vol) (of_nat j)
                 = Inr out"
      by (simp add: vol j ex_view0_type)
  qed
  from missing_moment_block_fails [OF t g b0 k none, where c = ex_constants and fp = ex_float_ops] le pre none
  show ?thesis by (simp add: ex_view0_type)
qed

subsection \<open>The shape of a rendered bin\<close>

lemma store_Inr:
  "store buf k xs = Inr buf' \<Longrightarrow> k + length xs \<le> length buf \<and> buf' = overwrite buf k xs"
  by (auto simp add: store_def overwrite_def split: if_splits)

lemma slice_overwrite:
  assumes "k + length xs \<le> length buf" and "j + n \<le> length xs"
  shows "take n (drop (k + j) (overwrite buf k xs)) = take n (drop j xs)"
proof -
  have "drop (k + j) (overwrite buf k xs) = drop j xs @ drop (k + length xs) buf"
    using assms by (simp add: overwrite_def drop_append)
  with assms(2) show ?thesis by simp
qed

lemma prefix_overwrite: "k \<le> length buf \<Longrightarrow> take k (overwrite buf k xs) = take k buf"
  by (simp add: overwrite_def)

lemma read_all_map: "read_all tbl ks = Inr vs \<Longrightarrow> vs = map ((!) tbl) ks"
  by (induction ks arbitrary: vs) (auto split: if_splits sum.splits)

lemma gate_body_rendered:
  assumes "gate_body c e radial md b gate i = Inr b'"
    and "sample_at md i = Inr s"
    and "unat (e_snrThreshold e) \<le> unat (bin_sample md s)"
  obtains vs where "bin_vertices c e radial (gateSize_of md) gate = Inr vs"
    and "b' = put (data_word_size md = 8) b
                (vs, replicate (if gate > 0 then 6 else 3) (bin_sample md s), [])"
    and "vIndex b + length vs \<le> length (vertices b)"
    and "mIndex b + (if gate > 0 then 6 else 3)
         \<le> (if data_word_size md = 8 then length (dataMoments8 b) else length (dataMoments16 b))"
proof -
  let ?n = "if gate > 0 then 6 else 3 :: nat"
  show thesis
  proof (cases "data_word_size md = 8")
    case True
    have bs: "bin_sample md s = ucast (ucast s :: u8)" using True by (simp add: bin_sample_def)
    have un: "unat (bin_sample md s) = unat (ucast s :: u8)" by (simp only: bs unat_ucast_u8)
    from assms True un obtain buf where
      st: "store (dataMoments8 b) (mIndex b) (replicate ?n (ucast s :: u8)) = Inr buf"
      and sv: "store_vertices c e radial (gateSize_of md) gate
                 (b\<lparr>dataMoments8 := buf, mIndex := mIndex b + ?n\<rparr>) = Inr b'"
      by (auto simp add: gate_body_def Let_def split: sum.splits if_splits)
    from store_Inr [OF st] have mroom: "mIndex b + ?n \<le> length (dataMoments8 b)"
      and buf: "buf = overwrite (dataMoments8 b) (mIndex b) (replicate ?n (ucast s))" by simp_all
    from sv obtain vs vbuf where vs: "bin_vertices c e radial (gateSize_of md) gate = Inr vs"
      and stv: "store (vertices b) (vIndex b) vs = Inr vbuf"
      and b': "b' = b\<lparr>dataMoments8 := buf, mIndex := mIndex b + ?n, vertices := vbuf,
                       vIndex := vIndex b + length vs\<rparr>"
      by (auto simp add: store_vertices_def split: sum.splits)
    from store_Inr [OF stv] have vroom: "vIndex b + length vs \<le> length (vertices b)"
      and vbuf: "vbuf = overwrite (vertices b) (vIndex b) vs" by simp_all
    have "b' = put (data_word_size md = 8) b (vs, replicate ?n (bin_sample md s), [])"
      using True by (simp add: b' buf vbuf put_def bs ucast_ucast_u8)
    with vs vroom mroom True that show ?thesis by simp
  next
    case False
    have bs: "bin_sample md s = s" using False by (simp add: bin_sample_def)
    from assms False bs obtain buf where
      st: "store (dataMoments16 b) (mIndex b) (replicate ?n s) = Inr buf"
      and sv: "store_vertices c e radial (gateSize_of md) gate
                 (b\<lparr>dataMoments16 := buf, mIndex := mIndex b + ?n\<rparr>) = Inr b'"
      by (auto simp add: gate_body_def Let_def split: sum.splits if_splits)
    from store_Inr [OF st] have mroom: "mIndex b + ?n \<le> length (dataMoments16 b)"
      and buf: "buf = overwrite (dataMoments16 b) (mIndex b) (replicate ?n s)" by simp_all
    from sv obtain vs vbuf where vs: "bin_vertices c e radial (gateSize_of md) gate = Inr vs"
      and stv: "store (vertices b) (vIndex b) vs = Inr vbuf"
      and b': "b' = b\<lparr>dataMoments16 := buf, mIndex := mIndex b + ?n, vertices := vbuf,
                       vIndex := vIndex b + length vs\<rparr>"
      by (auto simp add: store_vertices_def split: sum.splits)
    from store_Inr [OF stv] have vroom: "vIndex b + length vs \<le> length (vertices b)"
      and vbuf: "vbuf = overwrite (vertices b) (vIndex b) vs" by simp_all
    have "b' = put (data_word_size md = 8) b (vs, replicate ?n (bin_sample md s), [])"
      using False by (simp add: b' buf vbuf put_def bs)
    with vs vroom mroom False that show ?thesis by simp
  qed
qed


lemma ucast_ucast_small: "unat (m :: u16) < 256 \<Longrightarrow> (ucast (ucast m :: u8) :: u16) = m"
proof -
  assume "unat m < 256"
  then have "unat (ucast (ucast m :: u8) :: u16) = unat m"
    by (simp only: unat_ucast_u8 unat_ucast_small)
  then show ?thesis by (simp only: word_unat_eq_iff)
qed

lemma bin_sample_small: "data_word_size md = 8 \<Longrightarrow> unat (bin_sample md s) < 256"
  using unat_u8_bound [of "ucast s"] by (simp add: bin_sample_def unat_ucast_u8)

lemma raw_slice_put:
  assumes "mIndex b + length ms \<le> (if w8 then length (dataMoments8 b) else length (dataMoments16 b))"
    and "w8 \<Longrightarrow> \<forall>m \<in> set ms. unat m < 256"
  shows "raw_slice w8 (put w8 b (vs, ms, ws)) (mIndex b) (length ms) = ms"
proof (cases w8)
  case True
  with assms(1) have room: "mIndex b + length (map ucast ms :: u8 list) \<le> length (dataMoments8 b)"
    by simp
  have "take (length (map ucast ms :: u8 list))
          (drop (mIndex b + 0) (overwrite (dataMoments8 b) (mIndex b) (map ucast ms :: u8 list)))
        = take (length (map ucast ms :: u8 list)) (drop 0 (map ucast ms :: u8 list))"
    using room by (rule slice_overwrite) simp
  then have "take (length ms) (drop (mIndex b) (overwrite (dataMoments8 b) (mIndex b) (map ucast ms :: u8 list)))
             = (map ucast ms :: u8 list)" by simp
  moreover have "map ucast (map ucast ms :: u8 list) = ms"
  proof -
    have "map (\<lambda>m. ucast (ucast m :: u8) :: u16) ms = ms"
      using assms(2) [OF True] by (intro map_idI) (simp add: ucast_ucast_small)
    then show ?thesis by (simp add: comp_def)
  qed
  ultimately show ?thesis using True by (simp add: raw_slice_def put_def)
next
  case False
  with assms(1) have room: "mIndex b + length ms \<le> length (dataMoments16 b)" by simp
  have "take (length ms) (drop (mIndex b + 0) (overwrite (dataMoments16 b) (mIndex b) ms))
        = take (length ms) (drop 0 ms)"
    using room by (rule slice_overwrite) simp
  with False show ?thesis by (simp add: raw_slice_def put_def)
qed



text \<open>
  Claim C4. A bin whose sample reaches the threshold and whose stores succeed
  contributes, at gate 0, exactly 3 vertices (6 coordinates) of which the first is the
  radar origin, and exactly 3 raw values; at a gate above 0 exactly 6 vertices
  (12 coordinates), where the third vertex equals the fourth and the second equals the
  sixth (the two triangles of the quad share their diagonal), and exactly 6 raw
  values. All raw values of the bin are its sample.
\<close>

theorem rendered_bin_shape:
  assumes "gate_body c e radial md b gate i = Inr b'"
    and "sample_at md i = Inr s"
    and "unat (e_snrThreshold e) \<le> unat (bin_sample md s)"
  shows "(gate = 0 \<longrightarrow>
            vIndex b' = vIndex b + 3 * VALUES_PER_VERTEX
          \<and> take 2 (drop (vIndex b) (vertices b')) = [e_latitude e, e_longitude e]
          \<and> mIndex b' = mIndex b + 3
          \<and> raw_slice (data_word_size md = 8) b' (mIndex b) 3 = replicate 3 (bin_sample md s))
       \<and> (gate > 0 \<longrightarrow>
            vIndex b' = vIndex b + 6 * VALUES_PER_VERTEX
          \<and> take 2 (drop (vIndex b + 2 * VALUES_PER_VERTEX) (vertices b'))
              = take 2 (drop (vIndex b + 3 * VALUES_PER_VERTEX) (vertices b'))
          \<and> take 2 (drop (vIndex b + 1 * VALUES_PER_VERTEX) (vertices b'))
              = take 2 (drop (vIndex b + 5 * VALUES_PER_VERTEX) (vertices b'))
          \<and> mIndex b' = mIndex b + 6
          \<and> raw_slice (data_word_size md = 8) b' (mIndex b) 6 = replicate 6 (bin_sample md s))"
proof -
  let ?w8 = "data_word_size md = 8"
  let ?n = "if gate > 0 then 6 else 3 :: nat"
  let ?ms = "replicate ?n (bin_sample md s)"
  from gate_body_rendered [OF assms]
  obtain vs where vs: "bin_vertices c e radial (gateSize_of md) gate = Inr vs"
    and b': "b' = put ?w8 b (vs, ?ms, [])"
    and vroom: "vIndex b + length vs \<le> length (vertices b)"
    and mroom: "mIndex b + ?n \<le> (if ?w8 then length (dataMoments8 b) else length (dataMoments16 b))"
    by blast
  have mroom': "mIndex b + length ?ms \<le> (if ?w8 then length (dataMoments8 b) else length (dataMoments16 b))"
    using mroom by simp
  have small: "?w8 \<Longrightarrow> \<forall>m \<in> set ?ms. unat m < 256"
    by (auto simp add: bin_sample_small)
  have raw: "raw_slice ?w8 b' (mIndex b) ?n = ?ms"
    using raw_slice_put [OF mroom' small, of vs "[]"] by (simp add: b')
  have vi: "vIndex b' = vIndex b + length vs" and mi: "mIndex b' = mIndex b + ?n"
    by (simp_all add: b' put_def)
  have vert: "vertices b' = overwrite (vertices b) (vIndex b) vs" by (simp add: b' put_def)
  have slice: "take n (drop (vIndex b + j) (vertices b')) = take n (drop j vs)"
    if "j + n \<le> length vs" for j n
    unfolding vert using vroom that by (rule slice_overwrite)
  show ?thesis
  proof (intro conjI impI)
    assume g0: "gate = 0"
    with vs obtain rest where rest: "read_all (e_coordinates e) (origin_offsets c e radial gate) = Inr rest"
      and vs0: "vs = e_latitude e # e_longitude e # rest"
      by (auto simp add: bin_vertices_def split: sum.splits)
    from read_all_length [OF rest] have len: "length vs = 6"
      by (simp add: vs0 origin_offsets_def Let_def)
    show "vIndex b' = vIndex b + 3 * VALUES_PER_VERTEX" by (simp add: vi len VALUES_PER_VERTEX_def)
    show "mIndex b' = mIndex b + 3" using g0 by (simp add: mi)
    show "take 2 (drop (vIndex b) (vertices b')) = [e_latitude e, e_longitude e]"
      using slice [of 0 2] len by (simp add: vs0)
    show "raw_slice ?w8 b' (mIndex b) 3 = replicate 3 (bin_sample md s)"
      using raw g0 by simp
  next
    assume g: "gate > 0"
    with vs have "read_all (e_coordinates e) (quad_offsets c e radial (gateSize_of md) gate) = Inr vs"
      by (simp add: bin_vertices_def)
    from read_all_map [OF this]
    have vsq: "vs = map ((!) (e_coordinates e)) (quad_offsets c e radial (gateSize_of md) gate)" .
    then have len: "length vs = 12" by (simp add: quad_offsets_def Let_def)
    have d46: "take 2 (drop 4 vs) = take 2 (drop 6 vs)"
      and d210: "take 2 (drop 2 vs) = take 2 (drop 10 vs)"
      by (simp_all add: vsq quad_offsets_def Let_def)
    show "vIndex b' = vIndex b + 6 * VALUES_PER_VERTEX" by (simp add: vi len VALUES_PER_VERTEX_def)
    show "mIndex b' = mIndex b + 6" using g by (simp add: mi)
    show "take 2 (drop (vIndex b + 2 * VALUES_PER_VERTEX) (vertices b'))
          = take 2 (drop (vIndex b + 3 * VALUES_PER_VERTEX) (vertices b'))"
      using slice [of 4 2] slice [of 6 2] len d46 by (simp add: VALUES_PER_VERTEX_def)
    show "take 2 (drop (vIndex b + 1 * VALUES_PER_VERTEX) (vertices b'))
          = take 2 (drop (vIndex b + 5 * VALUES_PER_VERTEX) (vertices b'))"
      using slice [of 2 2] slice [of 10 2] len d210 by (simp add: VALUES_PER_VERTEX_def)
    show "raw_slice ?w8 b' (mIndex b) 6 = replicate 6 (bin_sample md s)"
      using raw g by simp
  qed
qed


theorem rendered_bin_shape_witness:
  "sample_at ex_two_gates 0 = Inr 100 \<and> sample_at ex_two_gates 1 = Inr 90
   \<and> unat (e_snrThreshold ex_env) = 68
   \<and> (\<exists>b1 b2.
         gate_body ex_constants ex_env 0 ex_two_gates ex_buffers 0 0 = Inr b1
       \<and> vIndex b1 = 6 \<and> mIndex b1 = 3
       \<and> take 2 (vertices b1) = [35, - 97]
       \<and> raw_slice True b1 0 3 = [100, 100, 100]
       \<and> gate_body ex_constants ex_env 0 ex_two_gates b1 1 1 = Inr b2
       \<and> vIndex b2 = 18 \<and> mIndex b2 = 9
       \<and> take 2 (drop 10 (vertices b2)) = take 2 (drop 12 (vertices b2))
       \<and> take 2 (drop 8 (vertices b2)) = take 2 (drop 16 (vertices b2))
       \<and> raw_slice True b2 3 6 = [90, 90, 90, 90, 90, 90])"
proof -
  let ?b0 = "ex_buffers"
  let ?o1 = "([35, - 97, 0, 1, 8, 9], [100, 100, 100], []) :: real emission"
  let ?o2 = "([0, 1, 2, 3, 8, 9, 8, 9, 10, 11, 2, 3], [90, 90, 90, 90, 90, 90], []) :: real emission"
  let ?b1 = "put True ?b0 ?o1"
  let ?b2 = "put True ?b1 ?o2"
  have w8: "data_word_size ex_two_gates = 8" by (simp add: ex_two_gates_def ex_block_def)
  have s0: "sample_at ex_two_gates 0 = Inr 100" and s1: "sample_at ex_two_gates 1 = Inr 90"
    by (simp_all add: sample_at_def ex_two_gates_def ex_block_def)
  have thr: "e_snrThreshold ex_env = 68"
    by (simp add: ex_env_def ex_two_gates_def sweep_env_of_simps ex_block_def round_half_away_def ex_float_ops_def)
  have bs: "bin_sample ex_two_gates 100 = 100" "bin_sample ex_two_gates 90 = 90"
    by (simp_all add: bin_sample_def w8)
  have b0: "vIndex ?b0 = 0" "mIndex ?b0 = 0" "length (vertices ?b0) = 24" "length (dataMoments8 ?b0) = 12"
    by (simp_all add: ex_buffers_def initial_buffers_def w8 ex_two_gates_def ex_block_def length_resize
          VERTICES_PER_BIN_def VALUES_PER_VERTEX_def)
  have e1: "bin_emit ex_constants ex_env 0 ex_two_gates (0, 0) = Inr ?o1"
    by (simp add: sweep_eval ex_env_def ex_two_gates_def)
  have e2: "bin_emit ex_constants ex_env 0 ex_two_gates (1, 1) = Inr ?o2"
    by (simp add: sweep_eval ex_env_def ex_two_gates_def)
  have g1: "gate_body ex_constants ex_env 0 ex_two_gates ?b0 0 0 = Inr ?b1"
    using gate_body_eq [of ?b0 ex_two_gates ex_constants ex_env 0 0 0] e1 by (simp add: b0 w8)
  have b1: "vIndex ?b1 = 6" "mIndex ?b1 = 3" "length (vertices ?b1) = 24" "length (dataMoments8 ?b1) = 12"
    by (simp_all add: put_def b0 length_overwrite)
  have g2: "gate_body ex_constants ex_env 0 ex_two_gates ?b1 1 1 = Inr ?b2"
    using gate_body_eq [of ?b1 ex_two_gates ex_constants ex_env 0 1 1] e2 by (simp add: b1 w8)
  have t1: "unat (e_snrThreshold ex_env) \<le> unat (bin_sample ex_two_gates 100)"
    and t2: "unat (e_snrThreshold ex_env) \<le> unat (bin_sample ex_two_gates 90)"
    by (simp_all add: thr bs)
  from rendered_bin_shape [OF g1 s0 t1] rendered_bin_shape [OF g2 s1 t2]
  have "vIndex ?b1 = 6 \<and> mIndex ?b1 = 3
       \<and> take 2 (vertices ?b1) = [35, - 97]
       \<and> raw_slice True ?b1 0 3 = [100, 100, 100]
       \<and> vIndex ?b2 = 18 \<and> mIndex ?b2 = 9
       \<and> take 2 (drop 10 (vertices ?b2)) = take 2 (drop 12 (vertices ?b2))
       \<and> take 2 (drop 8 (vertices ?b2)) = take 2 (drop 16 (vertices ?b2))
       \<and> raw_slice True ?b2 3 6 = [90, 90, 90, 90, 90, 90]"
    by (simp add: b0 b1 w8 bs VALUES_PER_VERTEX_def sweep_env_of_simps ex_env_def ex_volume_def
          replicate_vertexCount)
  with g1 g2 s0 s1 thr show ?thesis by auto
qed

subsection \<open>The radial slots of the coordinate table\<close>






subsection \<open>The lookups of a published sweep\<close>













subsection \<open>A radial of another word size\<close>
















end
